theory Spec2Isabelle
  imports Complex_Main "HOL-Library.Word" "HOL-Library.Multiset" "HOL-Library.Log_Nat"
begin

section \<open>sev-tool: repeated invocation, statistics and command dispatch (src/main.cpp)\<close>

subsection \<open>Values\<close>

text \<open>
  A \<open>double\<close> is modelled by the real number it denotes; every arithmetic operation of the
  source is the exact operation followed by the rounding function \<open>rnd\<close> of the format,
  which is a parameter of the model. Two instances are defined below: exact arithmetic
  (\<open>exact\<close>) and round-to-nearest-even with a 53 bit significand (\<open>binary64\<close>).
  Infinities and NaN are not values of the model: a division by zero and the square root
  of a negative number are results of their own.

  A status (\<open>int cmd_ret\<close>) is a 32 bit word.
\<close>

type_synonym double = real
type_synonym rounding = "real \<Rightarrow> real"
type_synonym status = "32 word"

datatype failure = DivisionByZero | NotANumber | OutOfBounds | SignedOverflow | LengthError
  | Unrepresentable

text \<open>Sequencing of steps that can fail: the first failure is the result.\<close>

definition and_then :: "failure + 'a \<Rightarrow> ('a \<Rightarrow> failure + 'b) \<Rightarrow> failure + 'b" where
  "and_then m f = (case m of Inl e \<Rightarrow> Inl e | Inr x \<Rightarrow> f x)"

definition exact :: rounding where
  "exact x = x"

text \<open>Round to the nearest integer, ties to even.\<close>

definition round_half_even :: "real \<Rightarrow> int" where
  "round_half_even x =
     (let f = \<lfloor>x\<rfloor>; r = x - of_int f
      in if r < 1 / 2 then f else if 1 / 2 < r then f + 1 else if even f then f else f + 1)"

text \<open>\<open>ilog2 x\<close> is the exponent \<open>e\<close> with \<open>2^e \<le> x < 2^(e+1)\<close>, for \<open>0 < x\<close>.\<close>

definition ilog2 :: "real \<Rightarrow> int" where
  "ilog2 x = (if 1 \<le> x then bitlen \<lfloor>x\<rfloor> - 1 else - bitlen (\<lceil>1 / x\<rceil> - 1))"

definition pow2 :: "int \<Rightarrow> real" where
  "pow2 k = (if 0 \<le> k then 2 ^ nat k else 1 / 2 ^ nat (- k))"

text \<open>
  The rounding of IEEE 754 binary64 in its normal range: the nearest multiple of
  \<open>2^(e-52)\<close>, ties to the even multiple, where \<open>e\<close> is the exponent of the argument.
\<close>

definition binary64 :: rounding where
  "binary64 x =
     (if x = 0 then 0
      else let u = pow2 (ilog2 \<bar>x\<bar> - 52) in of_int (round_half_even (x / u)) * u)"

definition fadd :: "rounding \<Rightarrow> double \<Rightarrow> double \<Rightarrow> double" where
  "fadd rnd a b = rnd (a + b)"

definition fsub :: "rounding \<Rightarrow> double \<Rightarrow> double \<Rightarrow> double" where
  "fsub rnd a b = rnd (a - b)"

definition fmul :: "rounding \<Rightarrow> double \<Rightarrow> double \<Rightarrow> double" where
  "fmul rnd a b = rnd (a * b)"

definition fdiv :: "rounding \<Rightarrow> double \<Rightarrow> double \<Rightarrow> failure + double" where
  "fdiv rnd a b = (if b = 0 then Inl DivisionByZero else Inr (rnd (a / b)))"

definition fsqrt :: "rounding \<Rightarrow> double \<Rightarrow> failure + double" where
  "fsqrt rnd a = (if a < 0 then Inl NotANumber else Inr (rnd (sqrt a)))"

text \<open>\<open>static_cast<double>(measurements.size())\<close>\<close>

definition size_to_double :: "rounding \<Rightarrow> nat \<Rightarrow> double" where
  "size_to_double rnd n = rnd (real n)"

text \<open>\<open>(a + b) / 2\<close> on doubles; the divisor 2 is never zero.\<close>

definition half_sum :: "rounding \<Rightarrow> double \<Rightarrow> double \<Rightarrow> double" where
  "half_sum rnd a b = rnd (fadd rnd a b / 2)"

text \<open>C integer division and remainder on \<open>int\<close>: the quotient is truncated towards zero.\<close>

definition c_div :: "int \<Rightarrow> int \<Rightarrow> int" where
  "c_div a b = sgn a * sgn b * (\<bar>a\<bar> div \<bar>b\<bar>)"

definition c_rem :: "int \<Rightarrow> int \<Rightarrow> int" where
  "c_rem a b = a - b * c_div a b"

definition INT_MAX :: int where
  "INT_MAX = 2147483647"

definition INT_MIN :: int where
  "INT_MIN = - 2147483648"

text \<open>\<open>measurements[i]\<close>: reading outside the vector is undefined behaviour.\<close>

definition subscript :: "double list \<Rightarrow> int \<Rightarrow> failure + double" where
  "subscript v i = (if 0 \<le> i \<and> i < int (length v) then Inr (v ! nat i) else Inl OutOfBounds)"

text \<open>\<open>int n = measurements.size()\<close>: the conversion keeps the low 32 bits.\<close>

definition size_to_int :: "nat \<Rightarrow> int" where
  "size_to_int n = sint (word_of_nat n :: 32 word)"

subsection \<open>The statistics of a sample (perform_repetitions_and_analysis, lines 149 to 194)\<close>

record summary =
  st_min :: double
  st_Q1 :: double
  st_median :: double
  st_Q3 :: double
  st_max :: double
  st_count :: nat
  st_mean :: double
  st_stdev :: double
  st_variance :: double

text \<open>Lines 151 and 152: \<open>std::accumulate\<close> from \<open>0.0\<close>, then the division by the size.\<close>

definition accumulate :: "rounding \<Rightarrow> double list \<Rightarrow> double" where
  "accumulate rnd v = foldl (fadd rnd) 0 v"

definition compute_mean :: "rounding \<Rightarrow> double list \<Rightarrow> failure + double" where
  "compute_mean rnd v = fdiv rnd (accumulate rnd v) (size_to_double rnd (length v))"

text \<open>Lines 154 to 159: the loop adding the squared deviations, then the division.\<close>

definition sum_squares :: "rounding \<Rightarrow> double list \<Rightarrow> double \<Rightarrow> double" where
  "sum_squares rnd v mean =
     foldl (\<lambda>variance val. fadd rnd variance (fmul rnd (fsub rnd val mean) (fsub rnd val mean))) 0 v"

definition compute_variance :: "rounding \<Rightarrow> double list \<Rightarrow> double \<Rightarrow> failure + double" where
  "compute_variance rnd v mean = fdiv rnd (sum_squares rnd v mean) (size_to_double rnd (length v))"

text \<open>
  Lines 167 to 180, on the sorted vector. \<open>3 * n\<close> is an \<open>int\<close> product; both branches
  evaluate it.
\<close>

definition compute_quartiles :: "rounding \<Rightarrow> double list \<Rightarrow> failure + (double \<times> double)" where
  "compute_quartiles rnd v =
     (let n = size_to_int (length v)
      in if 3 * n < INT_MIN \<or> INT_MAX < 3 * n then Inl SignedOverflow
         else if c_rem n 2 = 0 then
           and_then (subscript v (c_div n 4 - 1)) (\<lambda>a.
           and_then (subscript v (c_div n 4)) (\<lambda>b.
           and_then (subscript v (c_div (3 * n) 4 - 1)) (\<lambda>c.
           and_then (subscript v (c_div (3 * n) 4)) (\<lambda>d.
             Inr (half_sum rnd a b, half_sum rnd c d)))))
         else
           and_then (subscript v (c_div n 4)) (\<lambda>a.
           and_then (subscript v (c_div (3 * n) 4)) (\<lambda>b.
             Inr (a, b))))"

text \<open>Lines 181 to 185; the indices are \<open>size_t\<close> values, so \<open>0 / 2 - 1\<close> is out of range.\<close>

definition compute_median :: "rounding \<Rightarrow> double list \<Rightarrow> failure + double" where
  "compute_median rnd v =
     (let sz = int (length v)
      in if sz mod 2 = 0 then
           and_then (subscript v (sz div 2 - 1)) (\<lambda>a.
           and_then (subscript v (sz div 2)) (\<lambda>b.
             Inr (half_sum rnd a b)))
         else subscript v (sz div 2))"

text \<open>
  \<open>std::minmax_element\<close>: the first smallest and the last largest element; both are
  dereferenced when they are printed (lines 186 and 190).
\<close>

definition min_element :: "double list \<Rightarrow> failure + double" where
  "min_element v = (case v of [] \<Rightarrow> Inl OutOfBounds | x # xs \<Rightarrow> Inr (foldl min x xs))"

definition max_element :: "double list \<Rightarrow> failure + double" where
  "max_element v = (case v of [] \<Rightarrow> Inl OutOfBounds | x # xs \<Rightarrow> Inr (foldl max x xs))"

text \<open>
  The whole reduction, in the order of the source: mean, variance and standard deviation
  of the vector as collected, then \<open>std::sort\<close>, then the order statistics.
\<close>

definition compute_stats :: "rounding \<Rightarrow> double list \<Rightarrow> failure + summary" where
  "compute_stats rnd measurements =
     and_then (compute_mean rnd measurements) (\<lambda>mean.
     and_then (compute_variance rnd measurements mean) (\<lambda>variance.
     and_then (fsqrt rnd variance) (\<lambda>stdev.
     let sorted_m = sort measurements in
     and_then (compute_quartiles rnd sorted_m) (\<lambda>(Q1, Q3).
     and_then (compute_median rnd sorted_m) (\<lambda>median.
     and_then (min_element sorted_m) (\<lambda>mn.
     and_then (max_element sorted_m) (\<lambda>mx.
       Inr \<lparr>st_min = mn, st_Q1 = Q1, st_median = median, st_Q3 = Q3, st_max = mx,
            st_count = length sorted_m, st_mean = mean, st_stdev = stdev,
            st_variance = variance\<rparr>)))))))"

subsection \<open>The repetition cycle (perform_repetitions_and_analysis, lines 124 to 147)\<close>

text \<open>
  What the process prints: a \<open>printf\<close> text, a text sent to \<open>stderr\<close>, or a labelled value
  sent to \<open>std::cout\<close>.
\<close>

datatype out_item = Text string | Stderr string | Value string double | Count string nat

definition nl :: string where
  "nl = [CHR 0x0A]"

text \<open>\<open>printf("%02x", cmd_ret)\<close>: the value as unsigned, in lower case, at least two digits.\<close>

definition hex_digit :: "nat \<Rightarrow> char" where
  "hex_digit d = ''0123456789abcdef'' ! d"

function hex_digits :: "nat \<Rightarrow> string" where
  "hex_digits n = (if n < 16 then [hex_digit n] else hex_digits (n div 16) @ [hex_digit (n mod 16)])"
  by pat_completeness auto
termination
  by (relation "measure (\<lambda>n. n)") auto

declare hex_digits.simps [simp del]

definition printf_02x :: "status \<Rightarrow> string" where
  "printf_02x v = (let ds = hex_digits (unat v) in replicate (2 - length ds) (CHR ''0'') @ ds)"

text \<open>Lines 137 to 144: what the loop prints for a run that returned a non-zero status.\<close>

definition failure_text :: "status \<Rightarrow> string" where
  "failure_text ret =
     (if ret = 0xFFFF then nl @ ''Command not supported/recognized. Possibly bad formatting'' @ nl
      else nl @ ''Command Unsuccessful: 0x'' @ printf_02x ret @ nl)"

text \<open>
  A repeatable invocation \<open>func(measurements)\<close> receives the vector by reference and acts on
  the platform: it maps the vector and the state of the world to its status, the vector
  it leaves and the new state of the world.
\<close>

type_synonym 'w repeatable = "double list \<Rightarrow> 'w \<Rightarrow> status \<times> double list \<times> 'w"

record 'w cycle =
  cy_measurements :: "double list"
  cy_cmd_ret :: status
  cy_out :: "out_item list"
  cy_world :: 'w

text \<open>The \<open>for\<close> loop of lines 131 to 147, from the counter value \<open>i\<close>.\<close>

function repetition_loop :: "'w repeatable \<Rightarrow> int \<Rightarrow> int \<Rightarrow> 'w cycle \<Rightarrow> 'w cycle" where
  "repetition_loop func repetitions i c =
     (if i < repetitions then
        (case func (cy_measurements c) (cy_world c) of
           (ret, ms, w) \<Rightarrow>
             if ret \<noteq> 0
             then c\<lparr>cy_measurements := ms, cy_cmd_ret := ret,
                    cy_out := cy_out c @ [Text (failure_text ret)], cy_world := w\<rparr>
             else repetition_loop func repetitions (i + 1)
                    (c\<lparr>cy_measurements := ms, cy_cmd_ret := ret, cy_world := w\<rparr>))
      else c)"
  by pat_completeness auto
termination
  by (relation "measure (\<lambda>(func, repetitions, i, c). nat (repetitions - i))") auto

declare repetition_loop.simps [simp del]

text \<open>The cycle before the first run (lines 127 to 129).\<close>

definition initial_cycle :: "'w \<Rightarrow> 'w cycle" where
  "initial_cycle w = \<lparr>cy_measurements = [], cy_cmd_ret = 0, cy_out = [], cy_world = w\<rparr>"

text \<open>Lines 186 to 194.\<close>

definition report :: "summary \<Rightarrow> out_item list" where
  "report s =
     [Value ''Min: '' (st_min s),
      Value ''First Quartile (Q1): '' (st_Q1 s),
      Value ''Median: '' (st_median s),
      Value ''Third Quartile (Q3): '' (st_Q3 s),
      Value ''Max: '' (st_max s),
      Count ''Number of measurements: '' (st_count s),
      Value ''Average: '' (st_mean s),
      Value ''Standard Deviation: '' (st_stdev s),
      Value ''Variance: '' (st_variance s)]"

text \<open>
  The whole function. \<open>measurements.reserve(repetitions)\<close> throws \<open>std::length_error\<close> for a
  negative count. The result is the cycle as it is at \<open>return cmd_ret\<close>.
\<close>

definition perform_repetitions_and_analysis ::
    "rounding \<Rightarrow> 'w repeatable \<Rightarrow> int \<Rightarrow> 'w \<Rightarrow> failure + 'w cycle" where
  "perform_repetitions_and_analysis rnd func repetitions w =
     (if repetitions < 0 then Inl LengthError
      else
        let c = repetition_loop func repetitions 0 (initial_cycle w)
        in and_then (compute_stats rnd (cy_measurements c)) (\<lambda>s.
             Inr (c\<lparr>cy_measurements := sort (cy_measurements c),
                      cy_out := cy_out c @ report s\<rparr>)))"

text \<open>
  The runs of a cycle, one after the other, whatever their status: \<open>run_number func k w\<close> is
  the status of run \<open>k\<close>, the vector and the world after it, when the runs \<open>1\<close> to \<open>k\<close> are
  made in sequence from the empty vector and the world \<open>w\<close>.
\<close>

fun run_number :: "'w repeatable \<Rightarrow> nat \<Rightarrow> 'w \<Rightarrow> status \<times> double list \<times> 'w" where
  "run_number func 0 w = (0, [], w)"
| "run_number func (Suc k) w = (case run_number func k w of (ret, ms, w') \<Rightarrow> func ms w')"

text \<open>The same invocation, made to count its calls in the world.\<close>

definition counting :: "'w repeatable \<Rightarrow> (nat \<times> 'w) repeatable" where
  "counting func ms cw =
     (case func ms (snd cw) of (ret, ms', w') \<Rightarrow> (ret, ms', (Suc (fst cw), w')))"

text \<open>An invocation that reports one measurement per run and fails in its third run.\<close>

definition failing_third :: "nat repeatable" where
  "failing_third ms w = (if w = 2 then 0x13 else 0, ms @ [real (Suc w)], Suc w)"

subsection \<open>The summary as the specification words it\<close>

text \<open>
  Section 4.4 of the specification, in exact arithmetic: the mean is the arithmetic
  average, the variance is the population variance, the standard deviation is its square
  root; the median and the quartiles are read from the sample sorted ascending (0-based
  indices, integer division); the minimum and the maximum are the smallest and the largest
  element. The definition is compared with \<open>compute_stats\<close> below.
\<close>

definition summarize :: "real list \<Rightarrow> summary" where
  "summarize xs =
     (let s = sort xs; n = length xs;
          mean = sum_list xs / real n;
          variance = (\<Sum>x\<leftarrow>xs. (x - mean)\<^sup>2) / real n
      in \<lparr>st_min = Min (set xs),
          st_Q1 = (if even n then (s ! (n div 4 - 1) + s ! (n div 4)) / 2 else s ! (n div 4)),
          st_median = (if even n then (s ! (n div 2 - 1) + s ! (n div 2)) / 2 else s ! (n div 2)),
          st_Q3 = (if even n then (s ! (3 * n div 4 - 1) + s ! (3 * n div 4)) / 2
                   else s ! (3 * n div 4)),
          st_max = Max (set xs),
          st_count = n,
          st_mean = mean,
          st_stdev = sqrt variance,
          st_variance = variance\<rparr>)"

subsection \<open>The command line (main, lines 197 to 491)\<close>

text \<open>Characters as the \<open>int\<close> values \<open>getopt_long\<close> returns.\<close>

abbreviation (input) ch :: "char \<Rightarrow> int" where
  "ch c \<equiv> of_char c"

text \<open>Lines 32 to 77.\<close>

definition help_array :: string where
  "help_array = concat (map (\<lambda>l. l @ nl)
     [''The following commands are supported:'',
      '' sevtool -[global opts] --[command] [command opts]'',
      ''(Please see the readme file for more detailed information)'',
      ''Platform Owner commands:'',
      ''  factory_reset'',
      ''  platform_status'',
      ''  pek_gen'',
      ''  pek_csr'',
      ''  pdh_gen'',
      ''  pdh_cert_export'',
      ''  pek_cert_import'',
      ''      Input params:'',
      ''          pek_csr.signed.cert file'',
      ''          oca.cert file'',
      ''  get_id'',
      ''  sign_pek_csr'',
      ''      Input params:'',
      ''          pek_csr.cert file'',
      ''          [oca private key].pem file'',
      ''  set_self_owned'',
      ''  set_externally_owned'',
      ''      Input params:'',
      ''          [oca private key].pem file'',
      ''  generate_cek_ask'',
      ''  get_ask_ark'',
      ''  export_cert_chain'',
      ''Guest Owner commands:'',
      ''  calc_measurement'',
      ''      Input params (all in ascii-encoded hex bytes):'',
      ''          uint8_t  meas_ctx'',
      ''          uint8_t  api_major'',
      ''          uint8_t  api_minor'',
      ''          uint8_t  build_id'',
      ''          uint32_t policy'',
      ''          uint32_t digest'',
      ''          uint8_t  m_nonce[128/8]'',
      ''          uint8_t  gctx_tik[128/8]'',
      ''  validate_cert_chain'',
      ''  generate_launch_blob'',
      ''      Input params:'',
      ''          uint32_t policy'',
      ''  package_secret'',
      ''  validate_attestation'',
      ''  validate_guest_report'',
      ''  validate_cert_chain_vcek'',
      ''  export_cert_chain_vcek''])"

text \<open>
  Lines 83 to 122: \<open>lo_flag\<close> says that the entry stores \<open>lo_val\<close> in \<open>verbose_flag\<close> (its
  \<open>flag\<close> field is \<open>&verbose_flag\<close>) instead of returning it.
\<close>

datatype has_arg = no_argument | required_argument

record long_option =
  lo_name :: string
  lo_has_arg :: has_arg
  lo_flag :: bool
  lo_val :: int

definition long_options :: "long_option list" where
  "long_options =
     [\<lparr>lo_name = ''verbose'', lo_has_arg = no_argument, lo_flag = True, lo_val = 1\<rparr>,
      \<lparr>lo_name = ''brief'', lo_has_arg = no_argument, lo_flag = True, lo_val = 0\<rparr>,
      \<lparr>lo_name = ''factory_reset'', lo_has_arg = no_argument, lo_flag = False, lo_val = ch CHR ''a''\<rparr>,
      \<lparr>lo_name = ''platform_status'', lo_has_arg = no_argument, lo_flag = False, lo_val = ch CHR ''b''\<rparr>,
      \<lparr>lo_name = ''pek_gen'', lo_has_arg = no_argument, lo_flag = False, lo_val = ch CHR ''c''\<rparr>,
      \<lparr>lo_name = ''pek_csr'', lo_has_arg = no_argument, lo_flag = False, lo_val = ch CHR ''d''\<rparr>,
      \<lparr>lo_name = ''pdh_gen'', lo_has_arg = no_argument, lo_flag = False, lo_val = ch CHR ''e''\<rparr>,
      \<lparr>lo_name = ''pdh_cert_export'', lo_has_arg = no_argument, lo_flag = False, lo_val = ch CHR ''f''\<rparr>,
      \<lparr>lo_name = ''pek_cert_import'', lo_has_arg = required_argument, lo_flag = False, lo_val = ch CHR ''g''\<rparr>,
      \<lparr>lo_name = ''get_id'', lo_has_arg = no_argument, lo_flag = False, lo_val = ch CHR ''j''\<rparr>,
      \<lparr>lo_name = ''set_self_owned'', lo_has_arg = no_argument, lo_flag = False, lo_val = ch CHR ''k''\<rparr>,
      \<lparr>lo_name = ''set_externally_owned'', lo_has_arg = required_argument, lo_flag = False, lo_val = ch CHR ''l''\<rparr>,
      \<lparr>lo_name = ''generate_cek_ask'', lo_has_arg = no_argument, lo_flag = False, lo_val = ch CHR ''m''\<rparr>,
      \<lparr>lo_name = ''export_cert_chain'', lo_has_arg = no_argument, lo_flag = False, lo_val = ch CHR ''p''\<rparr>,
      \<lparr>lo_name = ''export_cert_chain_vcek'', lo_has_arg = no_argument, lo_flag = False, lo_val = ch CHR ''q''\<rparr>,
      \<lparr>lo_name = ''repetitions'', lo_has_arg = required_argument, lo_flag = False, lo_val = ch CHR ''r''\<rparr>,
      \<lparr>lo_name = ''sign_pek_csr'', lo_has_arg = required_argument, lo_flag = False, lo_val = ch CHR ''s''\<rparr>,
      \<lparr>lo_name = ''get_ask_ark'', lo_has_arg = no_argument, lo_flag = False, lo_val = ch CHR ''n''\<rparr>,
      \<lparr>lo_name = ''calc_measurement'', lo_has_arg = required_argument, lo_flag = False, lo_val = ch CHR ''t''\<rparr>,
      \<lparr>lo_name = ''validate_cert_chain'', lo_has_arg = no_argument, lo_flag = False, lo_val = ch CHR ''u''\<rparr>,
      \<lparr>lo_name = ''generate_launch_blob'', lo_has_arg = required_argument, lo_flag = False, lo_val = ch CHR ''v''\<rparr>,
      \<lparr>lo_name = ''package_secret'', lo_has_arg = no_argument, lo_flag = False, lo_val = ch CHR ''w''\<rparr>,
      \<lparr>lo_name = ''validate_attestation'', lo_has_arg = no_argument, lo_flag = False, lo_val = ch CHR ''x''\<rparr>,
      \<lparr>lo_name = ''validate_guest_report'', lo_has_arg = no_argument, lo_flag = False, lo_val = ch CHR ''y''\<rparr>,
      \<lparr>lo_name = ''validate_cert_chain_vcek'', lo_has_arg = no_argument, lo_flag = False, lo_val = ch CHR ''z''\<rparr>,
      \<lparr>lo_name = ''test_all'', lo_has_arg = no_argument, lo_flag = False, lo_val = ch CHR ''T''\<rparr>,
      \<lparr>lo_name = ''help'', lo_has_arg = no_argument, lo_flag = False, lo_val = ch CHR ''H''\<rparr>,
      \<lparr>lo_name = ''sys_info'', lo_has_arg = no_argument, lo_flag = False, lo_val = ch CHR ''I''\<rparr>,
      \<lparr>lo_name = ''ofolder'', lo_has_arg = required_argument, lo_flag = False, lo_val = ch CHR ''O''\<rparr>]"

text \<open>
  The variables of \<open>getopt\<close>: the argument vector (which GNU \<open>getopt\<close> may permute),
  \<open>optind\<close>, \<open>optarg\<close>, \<open>optopt\<close>, and whatever the library keeps between calls.
  \<open>getopt_long\<close> itself is a library function and a parameter of the model: from these
  variables and \<open>verbose_flag\<close> (the only flag the table points to) it gives its return
  value, the new variables and the new \<open>verbose_flag\<close>.
\<close>

record 'g getopt_vars =
  argv :: "string list"
  optind :: int
  optarg :: string
  optopt :: int
  hidden :: 'g

type_synonym 'g getopt_fun = "'g getopt_vars \<Rightarrow> int \<Rightarrow> int \<times> 'g getopt_vars \<times> int"

text \<open>
  The operations of class \<open>Command\<close> (commands.h, not part of main.cpp), with the
  arguments main passes to them.
\<close>

record measurement_t =
  meas_ctx :: "8 word"
  api_major :: "8 word"
  api_minor :: "8 word"
  build_id :: "8 word"
  policy :: "32 word"
  digest :: "8 word list"
  mnonce :: "8 word list"
  tik :: "8 word list"

datatype command =
    Sys_info | Factory_reset | Platform_status | Pek_gen | Pek_csr | Pdh_gen | Pdh_cert_export
  | Pek_cert_import string string | Get_id | Set_self_owned | Set_externally_owned string
  | Generate_cek_ask | Get_ask_ark | Export_cert_chain | Export_cert_chain_vcek
  | Sign_pek_csr string string | Calc_measurement measurement_t | Validate_cert_chain
  | Generate_launch_blob "32 word" | Package_secret | Validate_attestation
  | Validate_guest_report | Validate_cert_chain_vcek

text \<open>
  Everything main calls that is not in main.cpp, acting on a world \<open>'w\<close>:
  \<^item> \<open>pf_rounding\<close>: the rounding of \<open>double\<close> arithmetic;
  \<^item> \<open>run_measured cmd output_folder verbose_flag measurements\<close>: a \<open>Command\<close> built from
    \<open>output_folder\<close> and \<open>verbose_flag\<close>, and its operation called with the vector;
  \<^item> \<open>run_command cmd output_folder verbose_flag ccp_required\<close>: the same for an operation
    that takes no vector (\<open>ccp_required\<close> is false where main passes \<open>CCP_NOT_REQ\<close>);
  \<^item> \<open>test_all output_folder verbose_flag\<close>: \<open>Tests(output_folder, verbose_flag).test_all()\<close>;
  \<^item> \<open>execute_system_command cmd\<close>: its result and the output it stores;
  \<^item> \<open>strtol16 s\<close>: \<open>strtol(s, NULL, 16)\<close>; \<open>str_to_array s n\<close>: the \<open>n\<close> bytes
    \<open>sev::str_to_array\<close> leaves in the buffer; the three sizes are \<open>sizeof\<close> of the
    fields of \<open>measurement_t\<close>.
\<close>

record 'w platform =
  pf_rounding :: rounding
  run_measured :: "command \<Rightarrow> string \<Rightarrow> int \<Rightarrow> double list \<Rightarrow> 'w \<Rightarrow> status \<times> double list \<times> 'w"
  run_command :: "command \<Rightarrow> string \<Rightarrow> int \<Rightarrow> bool \<Rightarrow> 'w \<Rightarrow> status \<times> 'w"
  test_all :: "string \<Rightarrow> int \<Rightarrow> 'w \<Rightarrow> int \<times> 'w"
  execute_system_command :: "string \<Rightarrow> 'w \<Rightarrow> bool \<times> string \<times> 'w"
  strtol16 :: "string \<Rightarrow> int"
  str_to_array :: "string \<Rightarrow> nat \<Rightarrow> 8 word list"
  sizeof_digest :: nat
  sizeof_mnonce :: nat
  sizeof_tik :: nat

text \<open>\<open>printf("%d", i)\<close>\<close>

definition digit_char :: "nat \<Rightarrow> char" where
  "digit_char d = ''0123456789'' ! d"

function dec_digits :: "nat \<Rightarrow> string" where
  "dec_digits n = (if n < 10 then [digit_char n] else dec_digits (n div 10) @ [digit_char (n mod 10)])"
  by pat_completeness auto
termination
  by (relation "measure (\<lambda>n. n)") auto

declare dec_digits.simps [simp del]

definition printf_d :: "int \<Rightarrow> string" where
  "printf_d i = (if i < 0 then CHR ''-'' # dec_digits (nat (- i)) else dec_digits (nat i))"

text \<open>
  \<open>atoi\<close> (C standard library): white space, an optional sign, then decimal digits up to
  the first other character; 0 when there is no digit. A value outside \<open>int\<close> is
  undefined behaviour.
\<close>

definition isspace :: "char \<Rightarrow> bool" where
  "isspace c = (c = CHR '' '' \<or> c = CHR 0x09 \<or> c = CHR 0x0A \<or> c = CHR 0x0B \<or> c = CHR 0x0C
                \<or> c = CHR 0x0D)"

definition isdigit :: "char \<Rightarrow> bool" where
  "isdigit c = (48 \<le> (of_char c :: nat) \<and> (of_char c :: nat) \<le> 57)"

fun digits_value :: "int \<Rightarrow> string \<Rightarrow> int" where
  "digits_value acc [] = acc"
| "digits_value acc (c # cs) =
     (if isdigit c then digits_value (10 * acc + (of_char c - 48)) cs else acc)"

definition atoi :: "string \<Rightarrow> failure + int" where
  "atoi s =
     (let t = dropWhile isspace s;
          v = (case t of
                 [] \<Rightarrow> 0
               | c # r \<Rightarrow> if c = CHR ''-'' then - digits_value 0 r
                          else if c = CHR ''+'' then digits_value 0 r
                          else digits_value 0 t)
      in if v < INT_MIN \<or> INT_MAX < v then Inl Unrepresentable else Inr v)"

text \<open>The state of main: the variables of \<open>getopt\<close>, its own variables, and the world.\<close>

record ('g, 'w) main_state =
  ms_getopt :: "'g getopt_vars"
  output_folder :: string
  verbose_flag :: int
  repetitions :: int
  cmd_ret :: status
  ms_out :: "out_item list"
  ms_world :: 'w

text \<open>
  How the process ends: it returns from main with an exit code, having printed its output
  and left the world in some state; or its behaviour is undefined.
\<close>

datatype 'w outcome = Exit int "out_item list" 'w | Undefined failure

datatype ('g, 'w) step = Continue "('g, 'w) main_state" | Return int "out_item list" 'w
  | Undefined_behaviour failure

text \<open>\<open>argv[i]\<close>\<close>

definition argv_at :: "string list \<Rightarrow> int \<Rightarrow> failure + string" where
  "argv_at v i = (if 0 \<le> i \<and> i < int (length v) then Inr (v ! nat i) else Inl OutOfBounds)"

fun argv_from :: "string list \<Rightarrow> int \<Rightarrow> nat \<Rightarrow> failure + string list" where
  "argv_from v i 0 = Inr []"
| "argv_from v i (Suc k) =
     and_then (argv_at v i) (\<lambda>a. and_then (argv_from v (i + 1) k) (\<lambda>as. Inr (a # as)))"

text \<open>
  The positional arguments of an operation (lines 299 to 306 and the like):
  \<open>optind--\<close>, the comparison of \<open>argc - optind\<close> with the count, and on equality the
  reads \<open>argv[optind++]\<close>. The result is a mismatch, or the arguments and the new
  \<open>optind\<close>.
\<close>

datatype positional = Mismatch | Arguments "string list" int

definition take_positional :: "'g getopt_vars \<Rightarrow> nat \<Rightarrow> failure + positional" where
  "take_positional gv k =
     (let oi = optind gv - 1
      in if int (length (argv gv)) - oi \<noteq> int k then Inr Mismatch
         else and_then (argv_from (argv gv) oi k) (\<lambda>as. Inr (Arguments as (oi + int k))))"

text \<open>A repeatable operation run through \<open>perform_repetitions_and_analysis\<close>.\<close>

definition repeat :: "'w platform \<Rightarrow> 'w repeatable \<Rightarrow> ('g, 'w) main_state \<Rightarrow> ('g, 'w) step" where
  "repeat pf func st =
     (case perform_repetitions_and_analysis (pf_rounding pf) func (repetitions st) (ms_world st) of
        Inl e \<Rightarrow> Undefined_behaviour e
      | Inr c \<Rightarrow> Continue (st\<lparr>cmd_ret := cy_cmd_ret c, ms_out := ms_out st @ cy_out c,
                                ms_world := cy_world c\<rparr>))"

text \<open>An operation called once.\<close>

definition once :: "'w platform \<Rightarrow> command \<Rightarrow> bool \<Rightarrow> ('g, 'w) main_state \<Rightarrow> ('g, 'w) step" where
  "once pf cmd ccp_required st =
     (case run_command pf cmd (output_folder st) (verbose_flag st) ccp_required (ms_world st) of
        (ret, w) \<Rightarrow> Continue (st\<lparr>cmd_ret := ret, ms_world := w\<rparr>))"

text \<open>The lambda of lines 251 to 254 and the like.\<close>

definition measured_lambda :: "'w platform \<Rightarrow> command \<Rightarrow> ('g, 'w) main_state \<Rightarrow> 'w repeatable" where
  "measured_lambda pf cmd st =
     (\<lambda>measurements w. run_measured pf cmd (output_folder st) (verbose_flag st) measurements w)"

text \<open>The lambda of lines 307 to 310: it does not touch the vector.\<close>

definition pek_cert_import_lambda ::
    "'w platform \<Rightarrow> string \<Rightarrow> string \<Rightarrow> ('g, 'w) main_state \<Rightarrow> 'w repeatable" where
  "pek_cert_import_lambda pf signed_pek_csr_file oca_cert_file st =
     (\<lambda>measurements w.
        case run_command pf (Pek_cert_import signed_pek_csr_file oca_cert_file)
               (output_folder st) (verbose_flag st) True w of
          (ret, w') \<Rightarrow> (ret, measurements, w'))"

text \<open>Lines 224 to 248.\<close>

definition ofolder :: "'w platform \<Rightarrow> ('g, 'w) main_state \<Rightarrow> ('g, 'w) step" where
  "ofolder pf st =
     (let folder = optarg (ms_getopt st) @ ''/'';
          cmd = ''if test -d '' @ folder @ '' ; then echo '' @ [CHR 0x22] @ ''exist'' @ [CHR 0x22]
                @ ''; else echo '' @ [CHR 0x22] @ ''no'' @ [CHR 0x22] @ ''; fi''
      in case execute_system_command pf cmd (ms_world st) of
           (ok, output, w) \<Rightarrow>
             if \<not> ok then
               Return (of_bool False)
                 (ms_out st @ [Text (''Error. Output directory '' @ folder
                    @ '' existance check failed.'' @ nl)]) w
             else if take 2 output \<noteq> ''ex'' then
               Return (of_bool False)
                 (ms_out st @ [Text (''Error. Output directory '' @ folder @ '' does not exist. ''
                    @ ''Please manually create it and try again'' @ nl)]) w
             else Continue (st\<lparr>output_folder := folder, ms_world := w\<rparr>))"

text \<open>Lines 366 to 375.\<close>

definition set_repetitions :: "('g, 'w) main_state \<Rightarrow> ('g, 'w) step" where
  "set_repetitions st =
     (case atoi (optarg (ms_getopt st)) of
        Inl e \<Rightarrow> Undefined_behaviour e
      | Inr r \<Rightarrow>
          if r \<le> 0 then
            Continue (st\<lparr>repetitions := 1,
              ms_out := ms_out st @
                [Text (''Error: Invalid repetitions value '' @ printf_d r @ ''. Using default.'' @ nl)]\<rparr>)
          else Continue (st\<lparr>repetitions := r\<rparr>))"

text \<open>
  An operation with positional arguments: the arity check with its message, then the
  operation on the arguments.
\<close>

definition with_positional ::
    "nat \<Rightarrow> string \<Rightarrow> (string list \<Rightarrow> ('g, 'w) main_state \<Rightarrow> ('g, 'w) step) \<Rightarrow>
     ('g, 'w) main_state \<Rightarrow> ('g, 'w) step" where
  "with_positional k message body st =
     (case take_positional (ms_getopt st) k of
        Inl e \<Rightarrow> Undefined_behaviour e
      | Inr Mismatch \<Rightarrow> Return (of_bool False) (ms_out st @ [Text message]) (ms_world st)
      | Inr (Arguments as oi) \<Rightarrow> body as (st\<lparr>ms_getopt := (ms_getopt st)\<lparr>optind := oi\<rparr>\<rparr>))"

text \<open>Lines 400 to 408.\<close>

definition decode_measurement :: "'w platform \<Rightarrow> string list \<Rightarrow> measurement_t" where
  "decode_measurement pf as =
     \<lparr>meas_ctx = word_of_int (strtol16 pf (as ! 0)),
      api_major = word_of_int (strtol16 pf (as ! 1)),
      api_minor = word_of_int (strtol16 pf (as ! 2)),
      build_id = word_of_int (strtol16 pf (as ! 3)),
      policy = word_of_int (strtol16 pf (as ! 4)),
      digest = str_to_array pf (as ! 5) (sizeof_digest pf),
      mnonce = str_to_array pf (as ! 6) (sizeof_mnonce pf),
      tik = str_to_array pf (as ! 7) (sizeof_tik pf)\<rparr>"

text \<open>
  The body of the \<open>switch\<close> (lines 208 to 474) for the value \<open>c\<close> that \<open>getopt_long\<close>
  returned, in the order of the source. \<open>return false\<close> is an exit code \<open>of_bool False\<close>.
\<close>

definition dispatch :: "'w platform \<Rightarrow> int \<Rightarrow> ('g, 'w) main_state \<Rightarrow> ('g, 'w) step" where
  "dispatch pf c st =
     (if c = ch CHR ''h'' \<or> c = ch CHR ''H'' then
        Continue (st\<lparr>cmd_ret := 0, ms_out := ms_out st @ [Text (help_array @ nl)]\<rparr>)
      else if c = ch CHR ''i'' \<or> c = ch CHR ''I'' then once pf Sys_info True st
      else if c = ch CHR ''o'' \<or> c = ch CHR ''O'' then ofolder pf st
      else if c = ch CHR ''a'' then repeat pf (measured_lambda pf Factory_reset st) st
      else if c = ch CHR ''b'' then repeat pf (measured_lambda pf Platform_status st) st
      else if c = ch CHR ''c'' then repeat pf (measured_lambda pf Pek_gen st) st
      else if c = ch CHR ''d'' then repeat pf (measured_lambda pf Pek_csr st) st
      else if c = ch CHR ''e'' then repeat pf (measured_lambda pf Pdh_gen st) st
      else if c = ch CHR ''f'' then repeat pf (measured_lambda pf Pdh_cert_export st) st
      else if c = ch CHR ''g'' then
        with_positional 2 (''Error: Expecting exactly 2 args for pek_cert_import'' @ nl)
          (\<lambda>as st'. repeat pf (pek_cert_import_lambda pf (as ! 0) (as ! 1) st') st') st
      else if c = ch CHR ''j'' then repeat pf (measured_lambda pf Get_id st) st
      else if c = ch CHR ''k'' then once pf Set_self_owned True st
      else if c = ch CHR ''l'' then
        with_positional 1 (''Error: Expecting exactly 1 arg for set_externally_owned'' @ nl)
          (\<lambda>as st'. once pf (Set_externally_owned (as ! 0)) True st') st
      else if c = ch CHR ''m'' then once pf Generate_cek_ask True st
      else if c = ch CHR ''n'' then once pf Get_ask_ark False st
      else if c = ch CHR ''p'' then once pf Export_cert_chain True st
      else if c = ch CHR ''q'' then once pf Export_cert_chain_vcek True st
      else if c = ch CHR ''r'' then set_repetitions st
      else if c = ch CHR ''s'' then
        with_positional 2 (''Error: Expecting exactly 2 args for pek_cert_import'' @ nl)
          (\<lambda>as st'. once pf (Sign_pek_csr (as ! 0) (as ! 1)) False st') st
      else if c = ch CHR ''t'' then
        with_positional 8 (''Error: Expecting exactly 8 args for calc_measurement'' @ nl)
          (\<lambda>as st'. once pf (Calc_measurement (decode_measurement pf as)) False st') st
      else if c = ch CHR ''u'' then once pf Validate_cert_chain False st
      else if c = ch CHR ''v'' then
        with_positional 1 (''Error: Expecting exactly 1 arg for generate_launch_blob'' @ nl)
          (\<lambda>as st'. once pf
             (Generate_launch_blob (ucast (word_of_int (strtol16 pf (as ! 0)) :: 8 word))) False st') st
      else if c = ch CHR ''w'' then once pf Package_secret False st
      else if c = ch CHR ''x'' then once pf Validate_attestation False st
      else if c = ch CHR ''y'' then once pf Validate_guest_report False st
      else if c = ch CHR ''z'' then once pf Validate_cert_chain_vcek False st
      else if c = ch CHR ''T'' then
        (case test_all pf (output_folder st) (verbose_flag st) (ms_world st) of
           (passed, w) \<Rightarrow> Continue (st\<lparr>cmd_ret := of_bool (passed = 0), ms_world := w\<rparr>))
      else if c = 0 \<or> c = 1 then Continue st
      else
        Return (of_bool False)
          (ms_out st @ [Stderr (''Unrecognised option: -'' @ [char_of (optopt (ms_getopt st))] @ nl)])
          (ms_world st))"

text \<open>Lines 477 to 488: the line printed for the status that is left at the end.\<close>

definition status_text :: "status \<Rightarrow> string" where
  "status_text ret =
     (if ret = 0 then nl @ ''Command Successful'' @ nl
      else if ret = 0xFFFF
      then nl @ ''Command not supported/recognized. Possibly bad formatting'' @ nl
      else nl @ ''Command Unsuccessful: 0x'' @ printf_02x ret @ nl)"

text \<open>
  The \<open>while\<close> loop of line 205 with what follows it. The loop ends when \<open>getopt_long\<close>
  returns \<open>-1\<close>; whether it does is up to \<open>getopt_long\<close>, so the result is optional.
\<close>

partial_function (option) main_loop ::
    "'w platform \<Rightarrow> 'g getopt_fun \<Rightarrow> ('g, 'w) main_state \<Rightarrow> 'w outcome option" where
  "main_loop pf getopt_long st =
     (case getopt_long (ms_getopt st) (verbose_flag st) of
        (c, gv, vf) \<Rightarrow>
          if c = - 1 then
            Some (Exit 0 (ms_out st @ [Text (status_text (cmd_ret st))]) (ms_world st))
          else
            (case dispatch pf c (st\<lparr>ms_getopt := gv, verbose_flag := vf\<rparr>) of
               Continue st' \<Rightarrow> main_loop pf getopt_long st'
             | Return code out w \<Rightarrow> Some (Exit code out w)
             | Undefined_behaviour e \<Rightarrow> Some (Undefined e)))"

text \<open>
  The variables at the start of main (lines 80, 81 and 199 to 203); \<open>optind\<close> starts at 1
  and \<open>optopt\<close> at \<open>'?'\<close>.
\<close>

definition initial_state :: "'g \<Rightarrow> string list \<Rightarrow> 'w \<Rightarrow> ('g, 'w) main_state" where
  "initial_state g args w =
     \<lparr>ms_getopt = \<lparr>argv = args, optind = 1, optarg = [], optopt = ch CHR ''?'', hidden = g\<rparr>,
      output_folder = ''./'', verbose_flag = 0, repetitions = 1, cmd_ret = 0xFFFF,
      ms_out = [], ms_world = w\<rparr>"

definition main :: "'w platform \<Rightarrow> 'g getopt_fun \<Rightarrow> 'g \<Rightarrow> string list \<Rightarrow> 'w \<Rightarrow> 'w outcome option" where
  "main pf getopt_long g args w = main_loop pf getopt_long (initial_state g args w)"

subsection \<open>A model of getopt_long\<close>

text \<open>
  \<open>getopt_long(argc, argv, "hio:r:", long_options, &option_index)\<close> after the manual page
  getopt(3), for the argument vectors the tool documents: long options \<open>--name\<close>,
  \<open>--name=value\<close> and \<open>--name value\<close> (a name may be abbreviated to a prefix that fits
  one entry only), the short options \<open>-h\<close>, \<open>-i\<close>, \<open>-o value\<close> and \<open>-r value\<close> (also
  grouped, and with the value attached), and \<open>--\<close>. The hidden state is the position of
  the next character in a group of short options (0 when there is none). It stops at the
  first argument that is not an option, where GNU \<open>getopt_long\<close> would permute the vector
  and go on to later options; its messages on stderr are left out.
\<close>

definition find_long_option :: "string \<Rightarrow> long_option option" where
  "find_long_option name =
     (case filter (\<lambda>e. lo_name e = name) long_options of
        e # _ \<Rightarrow> Some e
      | [] \<Rightarrow>
          (case filter (\<lambda>e. take (length name) (lo_name e) = name) long_options of
             [e] \<Rightarrow> Some e
           | _ \<Rightarrow> None))"

definition long_option_result ::
    "nat getopt_vars \<Rightarrow> int \<Rightarrow> long_option \<Rightarrow> int \<times> nat getopt_vars \<times> int" where
  "long_option_result gv vf e =
     (if lo_flag e then (0, gv, lo_val e) else (lo_val e, gv, vf))"

definition getopt_long_option :: "nat getopt_vars \<Rightarrow> int \<Rightarrow> string \<Rightarrow> int \<times> nat getopt_vars \<times> int" where
  "getopt_long_option gv vf body =
     (let i = optind gv;
          name = takeWhile (\<lambda>c. c \<noteq> CHR ''='') body;
          rest = dropWhile (\<lambda>c. c \<noteq> CHR ''='') body
      in case find_long_option name of
           None \<Rightarrow> (ch CHR ''?'', gv\<lparr>optind := i + 1, optopt := 0\<rparr>, vf)
         | Some e \<Rightarrow>
             (case lo_has_arg e of
                no_argument \<Rightarrow>
                  if rest \<noteq> [] then (ch CHR ''?'', gv\<lparr>optind := i + 1, optopt := lo_val e\<rparr>, vf)
                  else long_option_result (gv\<lparr>optind := i + 1\<rparr>) vf e
              | required_argument \<Rightarrow>
                  if rest \<noteq> [] then
                    long_option_result (gv\<lparr>optind := i + 1, optarg := tl rest\<rparr>) vf e
                  else if i + 1 < int (length (argv gv)) then
                    long_option_result
                      (gv\<lparr>optind := i + 2, optarg := argv gv ! nat (i + 1)\<rparr>) vf e
                  else (ch CHR ''?'', gv\<lparr>optind := i + 1, optopt := lo_val e\<rparr>, vf)))"

text \<open>
  The short option at position \<open>p\<close> of the argument \<open>tok\<close>, for the option string
  \<open>"hio:r:"\<close>.
\<close>

definition getopt_short_option ::
    "nat getopt_vars \<Rightarrow> int \<Rightarrow> string \<Rightarrow> nat \<Rightarrow> int \<times> nat getopt_vars \<times> int" where
  "getopt_short_option gv vf tok p =
     (let i = optind gv; c = tok ! p; last_one = (p + 1 = length tok)
      in if c = CHR ''h'' \<or> c = CHR ''i'' then
           (if last_one then (ch c, gv\<lparr>optind := i + 1, hidden := 0\<rparr>, vf)
            else (ch c, gv\<lparr>hidden := p + 1\<rparr>, vf))
         else if c = CHR ''o'' \<or> c = CHR ''r'' then
           (if \<not> last_one then
              (ch c, gv\<lparr>optind := i + 1, optarg := drop (p + 1) tok, hidden := 0\<rparr>, vf)
            else if i + 1 < int (length (argv gv)) then
              (ch c, gv\<lparr>optind := i + 2, optarg := argv gv ! nat (i + 1), hidden := 0\<rparr>, vf)
            else (ch CHR ''?'', gv\<lparr>optind := i + 1, optopt := ch c, hidden := 0\<rparr>, vf))
         else
           (if last_one then (ch CHR ''?'', gv\<lparr>optind := i + 1, optopt := ch c, hidden := 0\<rparr>, vf)
            else (ch CHR ''?'', gv\<lparr>optopt := ch c, hidden := p + 1\<rparr>, vf)))"

definition getopt_long_model :: "nat getopt_fun" where
  "getopt_long_model gv vf =
     (let i = optind gv
      in if i < 1 \<or> int (length (argv gv)) \<le> i then (- 1, gv, vf)
         else
           let tok = argv gv ! nat i
           in if 0 < hidden gv \<and> hidden gv < length tok then getopt_short_option gv vf tok (hidden gv)
              else if tok = ''--'' then (- 1, gv\<lparr>optind := i + 1\<rparr>, vf)
              else if take 2 tok = ''--'' then getopt_long_option gv vf (drop 2 tok)
              else if take 1 tok = ''-'' \<and> 1 < length tok then getopt_short_option gv vf tok 1
              else (- 1, gv, vf))"

text \<open>
  What \<open>getopt_long\<close> has left to read: the number of arguments from \<open>optind\<close> on, and the
  number of characters from the position in the group of short options on.
\<close>

definition remaining :: "nat getopt_vars \<Rightarrow> nat \<times> nat" where
  "remaining gv =
     (nat (int (length (argv gv)) - optind gv),
      let tok = argv gv ! nat (optind gv)
      in length tok - (if 0 < hidden gv \<and> hidden gv < length tok then hidden gv else 1))"

subsection \<open>Runs of main\<close>

text \<open>
  A run of the loop from a state, as a relation: the values \<open>getopt_long\<close> returned, in
  order, how the run ended, and its outcome. \<open>Parsed\<close> is the end through line 477 (after
  \<open>getopt_long\<close> returned \<open>-1\<close>), \<open>Returned\<close> a \<open>return\<close> inside the \<open>switch\<close>, \<open>Failed\<close>
  undefined behaviour. It is shown below to describe \<open>main_loop\<close> exactly.
\<close>

datatype ending = Parsed | Returned | Failed

inductive main_run ::
    "'w platform \<Rightarrow> 'g getopt_fun \<Rightarrow> ('g, 'w) main_state \<Rightarrow> int list \<Rightarrow> ending \<Rightarrow> 'w outcome \<Rightarrow> bool"
  for pf :: "'w platform" and getopt_long :: "'g getopt_fun" where
  run_end:
    "getopt_long (ms_getopt st) (verbose_flag st) = (- 1, gv, vf) \<Longrightarrow>
     main_run pf getopt_long st [] Parsed
       (Exit 0 (ms_out st @ [Text (status_text (cmd_ret st))]) (ms_world st))"
| run_step:
    "getopt_long (ms_getopt st) (verbose_flag st) = (c, gv, vf) \<Longrightarrow> c \<noteq> - 1 \<Longrightarrow>
     dispatch pf c (st\<lparr>ms_getopt := gv, verbose_flag := vf\<rparr>) = Continue st' \<Longrightarrow>
     main_run pf getopt_long st' cs e y \<Longrightarrow>
     main_run pf getopt_long st (c # cs) e y"
| run_return:
    "getopt_long (ms_getopt st) (verbose_flag st) = (c, gv, vf) \<Longrightarrow> c \<noteq> - 1 \<Longrightarrow>
     dispatch pf c (st\<lparr>ms_getopt := gv, verbose_flag := vf\<rparr>) = Return code out w \<Longrightarrow>
     main_run pf getopt_long st [c] Returned (Exit code out w)"
| run_undefined:
    "getopt_long (ms_getopt st) (verbose_flag st) = (c, gv, vf) \<Longrightarrow> c \<noteq> - 1 \<Longrightarrow>
     dispatch pf c (st\<lparr>ms_getopt := gv, verbose_flag := vf\<rparr>) = Undefined_behaviour f \<Longrightarrow>
     main_run pf getopt_long st [c] Failed (Undefined f)"


text \<open>
  A platform for examples: every operation succeeds and counts its calls in the world; a
  measured operation reports the number of the call as its measurement; every output
  folder exists.
\<close>

definition counting_platform :: "nat platform" where
  "counting_platform =
     \<lparr>pf_rounding = exact,
      run_measured = (\<lambda>cmd folder vf measurements w. (0, measurements @ [real (Suc w)], Suc w)),
      run_command = (\<lambda>cmd folder vf ccp w. (0, Suc w)),
      test_all = (\<lambda>folder vf w. (1, w)),
      execute_system_command = (\<lambda>cmd w. (True, ''exist'', w)),
      strtol16 = (\<lambda>s. 0),
      str_to_array = (\<lambda>s n. replicate n 0),
      sizeof_digest = 32, sizeof_mnonce = 16, sizeof_tik = 16\<rparr>"

section \<open>Properties\<close>

subsection \<open>The repetition cycle\<close>

lemma loop_from:
  assumes "i < k" "k \<le> n"
    and "\<And>j. i < j \<Longrightarrow> j < k \<Longrightarrow> fst (run_number func j w0) = 0"
    and "fst (run_number func k w0) \<noteq> 0"
    and "snd (run_number func i w0) = (cy_measurements c, cy_world c)"
  shows "repetition_loop func (int n) (int i) c =
     c\<lparr>cy_measurements := fst (snd (run_number func k w0)),
       cy_cmd_ret := fst (run_number func k w0),
       cy_out := cy_out c @ [Text (failure_text (fst (run_number func k w0)))],
       cy_world := snd (snd (run_number func k w0))\<rparr>"
  using assms
proof (induction "k - i" arbitrary: i c)
  case 0
  then show ?case
    by (simp add: repetition_loop.simps [where i = "int i"] repetition_loop.simps [where i = "int n"])
next
  case (Suc d)
  obtain ret ms w where f: "func (cy_measurements c) (cy_world c) = (ret, ms, w)"
    by (cases "func (cy_measurements c) (cy_world c)") auto
  have rn: "run_number func (Suc i) w0 = (ret, ms, w)"
    using Suc.prems(5) f by (cases "run_number func i w0") auto
  show ?case
  proof (cases "Suc i = k")
    case True
    with rn Suc.prems f show ?thesis
      by (auto simp: repetition_loop.simps [of func "int n" "int i"])
  next
    case False
    with Suc.prems have lt: "Suc i < k" by simp
    have "fst (run_number func (Suc i) w0) = 0"
      by (rule Suc.prems(3)) (use lt in simp_all)
    with rn have r0: "ret = 0" by simp
    let ?c' = "c\<lparr>cy_measurements := ms, cy_cmd_ret := ret, cy_world := w\<rparr>"
    have step: "repetition_loop func (int n) (int i) c = repetition_loop func (int n) (int (Suc i)) ?c'"
      using f r0 Suc.prems(1,2) by (simp add: repetition_loop.simps [of func "int n" "int i"] add.commute)
    have "repetition_loop func (int n) (int (Suc i)) ?c' =
       ?c'\<lparr>cy_measurements := fst (snd (run_number func k w0)),
       cy_cmd_ret := fst (run_number func k w0),
       cy_out := cy_out ?c' @ [Text (failure_text (fst (run_number func k w0)))],
       cy_world := snd (snd (run_number func k w0))\<rparr>"
    proof (rule Suc.hyps(1))
      show "d = k - Suc i" using Suc.hyps(2) by simp
      show "Suc i < k" by (rule lt)
      show "k \<le> n" by (rule Suc.prems(2))
      show "fst (run_number func j w0) = 0" if "Suc i < j" "j < k" for j
        by (rule Suc.prems(3)) (use that in simp_all)
      show "fst (run_number func k w0) \<noteq> 0" by (rule Suc.prems(4))
      show "snd (run_number func (Suc i) w0) = (cy_measurements ?c', cy_world ?c')"
        using rn by simp
    qed
    with step show ?thesis by simp
  qed
qed


lemma loop_all:
  assumes "i \<le> n"
    and "\<And>j. i < j \<Longrightarrow> j \<le> n \<Longrightarrow> fst (run_number func j w0) = 0"
    and "snd (run_number func i w0) = (cy_measurements c, cy_world c)"
  shows "repetition_loop func (int n) (int i) c =
     (if i = n then c
      else c\<lparr>cy_measurements := fst (snd (run_number func n w0)),
             cy_cmd_ret := 0,
             cy_world := snd (snd (run_number func n w0))\<rparr>)"
  using assms
proof (induction "n - i" arbitrary: i c)
  case 0
  then show ?case
    by (simp add: repetition_loop.simps [where i = "int i"] repetition_loop.simps [where i = "int n"])
next
  case (Suc d)
  then have lt: "i < n" by simp
  obtain ret ms w where f: "func (cy_measurements c) (cy_world c) = (ret, ms, w)"
    by (cases "func (cy_measurements c) (cy_world c)") auto
  have rn: "run_number func (Suc i) w0 = (ret, ms, w)"
    using Suc.prems(3) f by (cases "run_number func i w0") auto
  have "fst (run_number func (Suc i) w0) = 0"
    by (rule Suc.prems(2)) (use lt in simp_all)
  with rn have r0: "ret = 0" by simp
  let ?c' = "c\<lparr>cy_measurements := ms, cy_cmd_ret := ret, cy_world := w\<rparr>"
  have step: "repetition_loop func (int n) (int i) c = repetition_loop func (int n) (int (Suc i)) ?c'"
    using f r0 lt by (simp add: repetition_loop.simps [of func "int n" "int i"] add.commute)
  have ih: "repetition_loop func (int n) (int (Suc i)) ?c' =
     (if Suc i = n then ?c'
      else ?c'\<lparr>cy_measurements := fst (snd (run_number func n w0)),
             cy_cmd_ret := 0,
             cy_world := snd (snd (run_number func n w0))\<rparr>)"
  proof (rule Suc.hyps(1))
    show "d = n - Suc i" using Suc.hyps(2) by simp
    show "Suc i \<le> n" using lt by simp
    show "fst (run_number func j w0) = 0" if "Suc i < j" "j \<le> n" for j
      by (rule Suc.prems(2)) (use that in simp_all)
    show "snd (run_number func (Suc i) w0) = (cy_measurements ?c', cy_world ?c')"
      using rn by simp
  qed
  show ?case
  proof (cases "Suc i = n")
    case True
    with step ih rn r0 lt show ?thesis
      by (auto simp: repetition_loop.simps [of func "int n" "int n"])
  next
    case False
    with step ih lt show ?thesis by simp
  qed
qed


lemma run_number_counting:
  "run_number (counting func) k (c0, w) =
     (case run_number func k w of (ret, ms, w') \<Rightarrow> (ret, ms, (c0 + k, w')))"
  by (induction k) (auto simp: counting_def split: prod.splits)

lemma status_counting:
  "fst (run_number (counting func) k (c0, w)) = fst (run_number func k w)"
  by (simp add: run_number_counting split: prod.splits)

lemma calls_counting:
  "fst (snd (snd (run_number (counting func) k (c0, w)))) = c0 + k"
  by (simp add: run_number_counting split: prod.splits)

lemma loop_stops_at_failure:
  assumes "1 \<le> k" "k \<le> n"
    and "\<And>j. 1 \<le> j \<Longrightarrow> j < k \<Longrightarrow> fst (run_number func j w) = 0"
    and "fst (run_number func k w) \<noteq> 0"
  shows "repetition_loop func (int n) 0 (initial_cycle w) =
     \<lparr>cy_measurements = fst (snd (run_number func k w)),
      cy_cmd_ret = fst (run_number func k w),
      cy_out = [Text (failure_text (fst (run_number func k w)))],
      cy_world = snd (snd (run_number func k w))\<rparr>"
proof -
  have "repetition_loop func (int n) (int 0) (initial_cycle w) =
     (initial_cycle w)\<lparr>cy_measurements := fst (snd (run_number func k w)),
       cy_cmd_ret := fst (run_number func k w),
       cy_out := cy_out (initial_cycle w) @ [Text (failure_text (fst (run_number func k w)))],
       cy_world := snd (snd (run_number func k w))\<rparr>"
  proof (rule loop_from)
    show "0 < k" using assms(1) by simp
    show "k \<le> n" by (rule assms(2))
    show "fst (run_number func j w) = 0" if "0 < j" "j < k" for j
      by (rule assms(3)) (use that in simp_all)
    show "fst (run_number func k w) \<noteq> 0" by (rule assms(4))
    show "snd (run_number func 0 w) = (cy_measurements (initial_cycle w), cy_world (initial_cycle w))"
      by (simp add: initial_cycle_def)
  qed
  then show ?thesis by (simp add: initial_cycle_def)
qed

lemma loop_runs_all:
  assumes "\<And>j. 1 \<le> j \<Longrightarrow> j \<le> n \<Longrightarrow> fst (run_number func j w) = 0"
  shows "repetition_loop func (int n) 0 (initial_cycle w) =
     \<lparr>cy_measurements = fst (snd (run_number func n w)),
      cy_cmd_ret = 0,
      cy_out = [],
      cy_world = snd (snd (run_number func n w))\<rparr>"
proof -
  have "repetition_loop func (int n) (int 0) (initial_cycle w) =
     (if 0 = n then initial_cycle w
      else (initial_cycle w)\<lparr>cy_measurements := fst (snd (run_number func n w)),
             cy_cmd_ret := 0,
             cy_world := snd (snd (run_number func n w))\<rparr>)"
  proof (rule loop_all)
    show "0 \<le> n" by simp
    show "fst (run_number func j w) = 0" if "0 < j" "j \<le> n" for j
      by (rule assms) (use that in simp_all)
    show "snd (run_number func 0 w) = (cy_measurements (initial_cycle w), cy_world (initial_cycle w))"
      by (simp add: initial_cycle_def)
  qed
  then show ?thesis by (cases "n = 0") (auto simp add: initial_cycle_def)
qed

lemma perform_status:
  "perform_repetitions_and_analysis rnd func n w = Inr c \<Longrightarrow>
     cy_cmd_ret c = cy_cmd_ret (repetition_loop func n 0 (initial_cycle w)) \<and>
     cy_world c = cy_world (repetition_loop func n 0 (initial_cycle w))"
  by (auto simp: perform_repetitions_and_analysis_def and_then_def Let_def
           split: if_splits sum.splits)

text \<open>
  C1. The runs of a cycle with requested count \<open>n\<close> are made in sequence, each from the
  vector and the world the previous one left. If run \<open>k\<close> (\<open>1 \<le> k \<le> n\<close>) is the first to
  return a non-zero status, the loop ends with the vector as run \<open>k\<close> left it, with the
  status of run \<open>k\<close> and with the world as run \<open>k\<close> left it: exactly \<open>k\<close> runs were made, and
  that status is what the function returns. If all \<open>n\<close> runs return 0, all \<open>n\<close> are made and
  the status is 0.
\<close>

theorem repetition_cycle:
  fixes func :: "'w repeatable"
  shows
   "(1 \<le> k \<and> k \<le> n \<and> (\<forall>j. 1 \<le> j \<and> j < k \<longrightarrow> fst (run_number func j w) = 0)
       \<and> fst (run_number func k w) \<noteq> 0 \<longrightarrow>
       cy_measurements (repetition_loop func (int n) 0 (initial_cycle w)) = fst (snd (run_number func k w))
     \<and> cy_cmd_ret (repetition_loop func (int n) 0 (initial_cycle w)) = fst (run_number func k w)
     \<and> cy_world (repetition_loop func (int n) 0 (initial_cycle w)) = snd (snd (run_number func k w))
     \<and> fst (cy_world (repetition_loop (counting func) (int n) 0 (initial_cycle (0, w)))) = k
     \<and> (\<forall>c. perform_repetitions_and_analysis rnd func (int n) w = Inr c \<longrightarrow>
            cy_cmd_ret c = fst (run_number func k w)))
  \<and> ((\<forall>j. 1 \<le> j \<and> j \<le> n \<longrightarrow> fst (run_number func j w) = 0) \<longrightarrow>
       cy_measurements (repetition_loop func (int n) 0 (initial_cycle w)) = fst (snd (run_number func n w))
     \<and> cy_cmd_ret (repetition_loop func (int n) 0 (initial_cycle w)) = 0
     \<and> cy_world (repetition_loop func (int n) 0 (initial_cycle w)) = snd (snd (run_number func n w))
     \<and> fst (cy_world (repetition_loop (counting func) (int n) 0 (initial_cycle (0, w)))) = n
     \<and> (\<forall>c. perform_repetitions_and_analysis rnd func (int n) w = Inr c \<longrightarrow> cy_cmd_ret c = 0))"
proof (intro conjI impI)
  assume a: "1 \<le> k \<and> k \<le> n \<and> (\<forall>j. 1 \<le> j \<and> j < k \<longrightarrow> fst (run_number func j w) = 0)
       \<and> fst (run_number func k w) \<noteq> 0"
  have l: "repetition_loop func (int n) 0 (initial_cycle w) =
     \<lparr>cy_measurements = fst (snd (run_number func k w)),
      cy_cmd_ret = fst (run_number func k w),
      cy_out = [Text (failure_text (fst (run_number func k w)))],
      cy_world = snd (snd (run_number func k w))\<rparr>"
    by (rule loop_stops_at_failure) (use a in simp_all)
  have lc: "repetition_loop (counting func) (int n) 0 (initial_cycle (0, w)) =
     \<lparr>cy_measurements = fst (snd (run_number (counting func) k (0, w))),
      cy_cmd_ret = fst (run_number (counting func) k (0, w)),
      cy_out = [Text (failure_text (fst (run_number (counting func) k (0, w))))],
      cy_world = snd (snd (run_number (counting func) k (0, w)))\<rparr>"
    by (rule loop_stops_at_failure)
       (use a in \<open>simp_all add: status_counting\<close>)
  show "cy_measurements (repetition_loop func (int n) 0 (initial_cycle w)) = fst (snd (run_number func k w))"
    using l by simp
  show "cy_cmd_ret (repetition_loop func (int n) 0 (initial_cycle w)) = fst (run_number func k w)"
    using l by simp
  show "cy_world (repetition_loop func (int n) 0 (initial_cycle w)) = snd (snd (run_number func k w))"
    using l by simp
  show "fst (cy_world (repetition_loop (counting func) (int n) 0 (initial_cycle (0, w)))) = k"
    using lc by (simp add: calls_counting)
  show "\<forall>c. perform_repetitions_and_analysis rnd func (int n) w = Inr c \<longrightarrow>
            cy_cmd_ret c = fst (run_number func k w)"
    using l perform_status [of rnd func "int n" w] by simp
next
  assume a: "\<forall>j. 1 \<le> j \<and> j \<le> n \<longrightarrow> fst (run_number func j w) = 0"
  have l: "repetition_loop func (int n) 0 (initial_cycle w) =
     \<lparr>cy_measurements = fst (snd (run_number func n w)),
      cy_cmd_ret = 0, cy_out = [],
      cy_world = snd (snd (run_number func n w))\<rparr>"
    by (rule loop_runs_all) (use a in simp_all)
  have lc: "repetition_loop (counting func) (int n) 0 (initial_cycle (0, w)) =
     \<lparr>cy_measurements = fst (snd (run_number (counting func) n (0, w))),
      cy_cmd_ret = 0, cy_out = [],
      cy_world = snd (snd (run_number (counting func) n (0, w)))\<rparr>"
    by (rule loop_runs_all)
       (use a in \<open>simp_all add: status_counting\<close>)
  show "cy_measurements (repetition_loop func (int n) 0 (initial_cycle w)) = fst (snd (run_number func n w))"
    using l by simp
  show "cy_cmd_ret (repetition_loop func (int n) 0 (initial_cycle w)) = 0"
    using l by simp
  show "cy_world (repetition_loop func (int n) 0 (initial_cycle w)) = snd (snd (run_number func n w))"
    using l by simp
  show "fst (cy_world (repetition_loop (counting func) (int n) 0 (initial_cycle (0, w)))) = n"
    using lc by (simp add: calls_counting)
  show "\<forall>c. perform_repetitions_and_analysis rnd func (int n) w = Inr c \<longrightarrow> cy_cmd_ret c = 0"
    using l perform_status [of rnd func "int n" w] by simp
qed


theorem repetition_cycle_witness:
  "cy_measurements (repetition_loop failing_third 5 0 (initial_cycle 0)) = [1, 2, 3]
   \<and> cy_cmd_ret (repetition_loop failing_third 5 0 (initial_cycle 0)) = 0x13
   \<and> cy_world (repetition_loop failing_third 5 0 (initial_cycle 0)) = 3
   \<and> fst (cy_world (repetition_loop (counting failing_third) 5 0 (initial_cycle (0, 0)))) = 3
   \<and> cy_measurements (repetition_loop failing_third 2 0 (initial_cycle 0)) = [1, 2]
   \<and> cy_cmd_ret (repetition_loop failing_third 2 0 (initial_cycle 0)) = 0"
proof -
  have r1: "run_number failing_third (Suc 0) 0 = (0, [1], 1)"
    by (simp add: failing_third_def)
  have r2: "run_number failing_third 2 0 = (0, [1, 2], 2)"
    using r1 by (simp add: failing_third_def numeral_2_eq_2)
  have r3: "run_number failing_third 3 0 = (0x13, [1, 2, 3], 3)"
    using r2 by (simp add: failing_third_def numeral_3_eq_3 numeral_2_eq_2)
  have before: "\<forall>j. 1 \<le> j \<and> j < 3 \<longrightarrow> fst (run_number failing_third j 0) = 0"
  proof (intro allI impI)
    fix j :: nat
    assume "1 \<le> j \<and> j < 3"
    then have "j = Suc 0 \<or> j = 2" by arith
    then show "fst (run_number failing_third j 0) = 0" using r1 r2 by auto
  qed
  have upto: "\<forall>j. 1 \<le> j \<and> j \<le> 2 \<longrightarrow> fst (run_number failing_third j 0) = 0"
  proof (intro allI impI)
    fix j :: nat
    assume "1 \<le> j \<and> j \<le> 2"
    then have "j = Suc 0 \<or> j = 2" by arith
    then show "fst (run_number failing_third j 0) = 0" using r1 r2 by auto
  qed
  show ?thesis
    using repetition_cycle [of 3 5 failing_third 0 exact]
          repetition_cycle [of 3 2 failing_third 0 exact] before upto r2 r3
    by simp
qed
subsection \<open>The statistics\<close>

lemma size_to_int_small: "n < 2 ^ 31 \<Longrightarrow> size_to_int n = int n"
proof -
  assume "n < 2 ^ 31"
  then have "int n < int (2 ^ 31)" by (simp only: of_nat_less_iff)
  then have lt: "int n < 2 ^ 31" by simp
  have "size_to_int n = sint (word_of_int (int n) :: 32 word)"
    by (simp only: size_to_int_def of_int_of_nat_eq)
  also have "\<dots> = signed_take_bit 31 (int n)"
    by (simp only: sint_sbintrunc') simp
  also have "\<dots> = int n"
    by (rule signed_take_bit_int_eq_self) (use lt in simp_all)
  finally show ?thesis .
qed

lemma c_div_nonneg: "0 \<le> a \<Longrightarrow> 0 < b \<Longrightarrow> c_div a b = a div b"
  by (cases "a = 0") (simp_all add: c_div_def sgn_if)

lemma c_rem_nonneg: "0 \<le> a \<Longrightarrow> 0 < b \<Longrightarrow> c_rem a b = a mod b"
  by (simp add: c_rem_def c_div_nonneg minus_mult_div_eq_mod)

lemma subscript_in: "i < length v \<Longrightarrow> subscript v (int i) = Inr (v ! i)"
  by (simp add: subscript_def)

lemma subscript_pred:
  "0 < i \<Longrightarrow> i \<le> length v \<Longrightarrow> subscript v (int i - 1) = Inr (v ! (i - 1))"
proof -
  assume a: "0 < i" "i \<le> length v"
  then have "int i - 1 = int (i - 1)" by simp
  moreover have "i - 1 < length v" using a by simp
  ultimately show ?thesis by (simp only: subscript_in)
qed

lemma subscript_neg: "i < 0 \<Longrightarrow> subscript v i = Inl OutOfBounds"
  by (simp add: subscript_def)

lemma quartiles_even:
  assumes "even (length v)" "4 \<le> length v" "3 * length v \<le> 2147483647"
  shows "compute_quartiles rnd v =
     Inr (half_sum rnd (v ! (length v div 4 - 1)) (v ! (length v div 4)),
          half_sum rnd (v ! (3 * length v div 4 - 1)) (v ! (3 * length v div 4)))"
proof -
  let ?n = "length v"
  have n: "size_to_int ?n = int ?n" using assms(3) by (intro size_to_int_small) simp
  have i1: "c_div (int ?n) 4 - 1 = int (?n div 4 - 1)" using assms(2)
    by (simp add: c_div_nonneg of_nat_diff zdiv_int)
  have i2: "c_div (int ?n) 4 = int (?n div 4)" by (simp add: c_div_nonneg zdiv_int)
  have i3: "c_div (3 * int ?n) 4 - 1 = int (3 * ?n div 4 - 1)" using assms(2)
    by (simp add: c_div_nonneg of_nat_diff zdiv_int)
  have i4: "c_div (3 * int ?n) 4 = int (3 * ?n div 4)" by (simp add: c_div_nonneg zdiv_int)
  have ev: "c_rem (int ?n) 2 = 0" using assms(1) by (simp add: c_rem_nonneg)
  have b: "0 < ?n div 4" "?n div 4 < ?n" "0 < 3 * ?n div 4" "3 * ?n div 4 < ?n"
    using assms(2) by presburger+
  show ?thesis
    using assms(3) b
    by (simp add: compute_quartiles_def n Let_def INT_MAX_def INT_MIN_def ev i2 i4
        subscript_in subscript_pred and_then_def)
qed

lemma quartiles_odd:
  assumes "odd (length v)" "3 * length v \<le> 2147483647"
  shows "compute_quartiles rnd v = Inr (v ! (length v div 4), v ! (3 * length v div 4))"
proof -
  let ?n = "length v"
  have n: "size_to_int ?n = int ?n" using assms(2) by (intro size_to_int_small) simp
  have i2: "c_div (int ?n) 4 = int (?n div 4)" by (simp add: c_div_nonneg zdiv_int)
  have i4: "c_div (3 * int ?n) 4 = int (3 * ?n div 4)" by (simp add: c_div_nonneg zdiv_int)
  have od: "c_rem (int ?n) 2 \<noteq> 0" using assms(1) by (simp add: c_rem_nonneg, presburger)
  have pos: "0 < ?n" using assms(1) by (cases v) auto
  have b: "?n div 4 < ?n" "3 * ?n div 4 < ?n"
    using pos by presburger+
  show ?thesis
    using assms(2) b
    by (simp add: compute_quartiles_def n Let_def INT_MAX_def INT_MIN_def od i2 i4
        subscript_in and_then_def)
qed

lemma quartiles_two: "compute_quartiles rnd [a, b] = Inl OutOfBounds"
  by (simp add: compute_quartiles_def size_to_int_def Let_def INT_MAX_def INT_MIN_def
      c_rem_def c_div_def subscript_def and_then_def)

lemma quartiles_empty: "compute_quartiles rnd [] = Inl OutOfBounds"
  by (simp add: compute_quartiles_def size_to_int_def Let_def INT_MAX_def INT_MIN_def
      c_rem_def c_div_def subscript_def and_then_def)

lemma median_even:
  assumes "even (length v)" "2 \<le> length v"
  shows "compute_median rnd v = Inr (half_sum rnd (v ! (length v div 2 - 1)) (v ! (length v div 2)))"
proof -
  let ?n = "length v"
  have i1: "int (?n div 2) - 1 = int (?n div 2 - 1)" using assms(2)
    by (simp add: of_nat_diff)
  have i2: "int ?n div 2 = int (?n div 2)" by (simp add: zdiv_int)
  have ev: "int ?n mod 2 = 0" using assms(1) by presburger
  have b: "0 < ?n div 2" "?n div 2 < ?n" using assms(2) by presburger+
  show ?thesis using b
    by (simp add: compute_median_def Let_def ev i2 subscript_in subscript_pred and_then_def)
qed

lemma median_odd:
  assumes "odd (length v)"
  shows "compute_median rnd v = Inr (v ! (length v div 2))"
proof -
  let ?n = "length v"
  have i2: "int ?n div 2 = int (?n div 2)" by (simp add: zdiv_int)
  have od: "int ?n mod 2 \<noteq> 0" using assms(1) by presburger
  have pos: "0 < ?n" using assms(1) by (cases v) auto
  have b: "?n div 2 < ?n" using pos by simp
  show ?thesis using b
    by (simp add: compute_median_def Let_def od i2 subscript_in)
qed

lemma median_empty: "compute_median rnd [] = Inl OutOfBounds"
  by (simp add: compute_median_def subscript_def and_then_def)

lemma foldl_min_sorted: "\<forall>y\<in>set ys. x \<le> y \<Longrightarrow> foldl min x ys = (x::real)"
  by (induction ys) (auto simp: min_def)

lemma foldl_max_sorted: "sorted (x # ys) \<Longrightarrow> foldl max x ys = last (x # ys)"
  by (induction ys arbitrary: x) (auto simp: max_def)

lemma min_element_sorted: "sorted v \<Longrightarrow> v \<noteq> [] \<Longrightarrow> min_element v = Inr (v ! 0)"
  by (cases v) (auto simp: min_element_def foldl_min_sorted)

lemma max_element_sorted: "sorted v \<Longrightarrow> v \<noteq> [] \<Longrightarrow> max_element v = Inr (v ! (length v - 1))"
  by (cases v) (auto simp: max_element_def foldl_max_sorted last_conv_nth simp del: sorted_simps last.simps)


lemma sort_not_Nil: "xs \<noteq> [] \<Longrightarrow> sort xs \<noteq> []"
proof
  assume "xs \<noteq> []" "sort xs = []"
  then have "set (sort xs) = {}" by (simp only: set_empty)
  then have "set xs = {}" by (simp only: set_sort)
  with \<open>xs \<noteq> []\<close> show False by simp
qed

lemma size_to_double_pos:
  assumes "mono rnd" "rnd 1 = 1" "0 < n"
  shows "1 \<le> size_to_double rnd n"
proof -
  have "rnd 1 \<le> rnd (real n)" by (rule monoD [OF assms(1)]) (use assms(3) in simp)
  then show ?thesis by (simp add: size_to_double_def assms(2))
qed

lemma rnd_nonneg:
  assumes "mono rnd" "rnd 0 = 0" "0 \<le> x"
  shows "0 \<le> rnd x"
  using monoD [OF assms(1) assms(3)] by (simp add: assms(2))

lemma foldl_squares_nonneg:
  assumes "mono rnd" "rnd 0 = 0" "0 \<le> a"
  shows "0 \<le> foldl (\<lambda>variance val. fadd rnd variance (fmul rnd (fsub rnd val m) (fsub rnd val m))) a v"
  using assms(3)
proof (induction v arbitrary: a)
  case Nil
  then show ?case by simp
next
  case (Cons x v)
  have "0 \<le> fmul rnd (fsub rnd x m) (fsub rnd x m)"
    unfolding fmul_def by (rule rnd_nonneg [OF assms(1,2)]) simp
  then have "0 \<le> fadd rnd a (fmul rnd (fsub rnd x m) (fsub rnd x m))"
    unfolding fadd_def using Cons.prems by (intro rnd_nonneg [OF assms(1,2)]) simp
  then show ?case using Cons.IH by simp
qed

lemma sum_squares_nonneg:
  assumes "mono rnd" "rnd 0 = 0"
  shows "0 \<le> sum_squares rnd v m"
  unfolding sum_squares_def by (rule foldl_squares_nonneg [OF assms]) simp

lemma compute_mean_defined:
  assumes "mono rnd" "rnd 1 = 1" "v \<noteq> []"
  shows "compute_mean rnd v = Inr (rnd (accumulate rnd v / rnd (real (length v))))"
proof -
  have "1 \<le> size_to_double rnd (length v)"
    by (rule size_to_double_pos [OF assms(1,2)]) (use assms(3) in simp)
  then show ?thesis by (simp add: compute_mean_def fdiv_def size_to_double_def)
qed

lemma compute_variance_defined:
  assumes "mono rnd" "rnd 1 = 1" "v \<noteq> []"
  shows "compute_variance rnd v m = Inr (rnd (sum_squares rnd v m / rnd (real (length v))))"
proof -
  have "1 \<le> size_to_double rnd (length v)"
    by (rule size_to_double_pos [OF assms(1,2)]) (use assms(3) in simp)
  then show ?thesis by (simp add: compute_variance_def fdiv_def size_to_double_def)
qed

lemma variance_nonneg:
  assumes "mono rnd" "rnd 0 = 0" "rnd 1 = 1" "v \<noteq> []"
  shows "0 \<le> rnd (sum_squares rnd v m / rnd (real (length v)))"
proof -
  have "1 \<le> size_to_double rnd (length v)"
    by (rule size_to_double_pos [OF assms(1,3)]) (use assms(4) in simp)
  then have "0 \<le> sum_squares rnd v m / rnd (real (length v))"
    using sum_squares_nonneg [OF assms(1,2), of v m] by (simp add: size_to_double_def)
  then show ?thesis by (rule rnd_nonneg [OF assms(1,2)])
qed

text \<open>The reduction of a non-empty sample, for a monotone rounding that keeps 0 and 1.\<close>

lemma compute_stats_defined:
  assumes mono: "mono rnd" and r0: "rnd 0 = 0" and r1: "rnd 1 = 1"
    and ne: "xs \<noteq> []" and sz: "3 * length xs \<le> 2147483647" and n2: "length xs \<noteq> 2"
  shows "compute_stats rnd xs =
     Inr \<lparr>st_min = sort xs ! 0,
          st_Q1 = (if even (length xs)
                   then half_sum rnd (sort xs ! (length xs div 4 - 1)) (sort xs ! (length xs div 4))
                   else sort xs ! (length xs div 4)),
          st_median = (if even (length xs)
                   then half_sum rnd (sort xs ! (length xs div 2 - 1)) (sort xs ! (length xs div 2))
                   else sort xs ! (length xs div 2)),
          st_Q3 = (if even (length xs)
                   then half_sum rnd (sort xs ! (3 * length xs div 4 - 1)) (sort xs ! (3 * length xs div 4))
                   else sort xs ! (3 * length xs div 4)),
          st_max = sort xs ! (length xs - 1),
          st_count = length xs,
          st_mean = rnd (accumulate rnd xs / rnd (real (length xs))),
          st_stdev = rnd (sqrt (rnd (sum_squares rnd xs (rnd (accumulate rnd xs / rnd (real (length xs))))
                                      / rnd (real (length xs))))),
          st_variance = rnd (sum_squares rnd xs (rnd (accumulate rnd xs / rnd (real (length xs))))
                                      / rnd (real (length xs)))\<rparr>"
proof -
  let ?s = "sort xs"
  have len: "length ?s = length xs" by simp
  have sne: "?s \<noteq> []" using ne by (rule sort_not_Nil)
  have mn: "min_element ?s = Inr (?s ! 0)" by (rule min_element_sorted) (simp_all add: sne)
  have mx: "max_element ?s = Inr (?s ! (length xs - 1))"
    using max_element_sorted [of ?s] sne by simp
  have sq: "fsqrt rnd (rnd (sum_squares rnd xs m / rnd (real (length xs)))) =
            Inr (rnd (sqrt (rnd (sum_squares rnd xs m / rnd (real (length xs))))))" for m
    using variance_nonneg [OF mono r0 r1 ne, of m] by (simp add: fsqrt_def)
  show ?thesis
  proof (cases "even (length xs)")
    case True
    have "length xs \<noteq> 0" using ne by simp
    with n2 True have four: "4 \<le> length xs" by presburger
    have q: "compute_quartiles rnd ?s =
       Inr (half_sum rnd (?s ! (length xs div 4 - 1)) (?s ! (length xs div 4)),
            half_sum rnd (?s ! (3 * length xs div 4 - 1)) (?s ! (3 * length xs div 4)))"
      using quartiles_even [of ?s rnd] True four sz by simp
    have m: "compute_median rnd ?s =
       Inr (half_sum rnd (?s ! (length xs div 2 - 1)) (?s ! (length xs div 2)))"
      using median_even [of ?s rnd] True four by simp
    show ?thesis
      by (simp add: compute_stats_def compute_mean_defined [OF mono r1 ne]
          compute_variance_defined [OF mono r1 ne] sq q m mn mx and_then_def Let_def True)
  next
    case False
    have q: "compute_quartiles rnd ?s = Inr (?s ! (length xs div 4), ?s ! (3 * length xs div 4))"
      using quartiles_odd [of ?s rnd] False sz by simp
    have m: "compute_median rnd ?s = Inr (?s ! (length xs div 2))"
      using median_odd [of ?s rnd] False by simp
    show ?thesis
      by (simp add: compute_stats_def compute_mean_defined [OF mono r1 ne]
          compute_variance_defined [OF mono r1 ne] sq q m mn mx and_then_def Let_def False)
  qed
qed

lemma compute_stats_two:
  assumes mono: "mono rnd" and r0: "rnd 0 = 0" and r1: "rnd 1 = 1"
    and n2: "length xs = 2"
  shows "compute_stats rnd xs = Inl OutOfBounds"
proof -
  have ne: "xs \<noteq> []" using n2 by auto
  obtain a b where s: "sort xs = [a, b]"
  proof -
    have "length (sort xs) = 2" using n2 by simp
    then show ?thesis using that
      by (cases "sort xs"; cases "tl (sort xs)") auto
  qed
  have sq: "fsqrt rnd (rnd (sum_squares rnd xs m / rnd (real (length xs)))) =
            Inr (rnd (sqrt (rnd (sum_squares rnd xs m / rnd (real (length xs))))))" for m
    using variance_nonneg [OF mono r0 r1 ne, of m] by (simp add: fsqrt_def)
  show ?thesis
    by (simp add: compute_stats_def compute_mean_defined [OF mono r1 ne]
          compute_variance_defined [OF mono r1 ne] sq s quartiles_two and_then_def)
qed

lemma foldl_exact_sum: "foldl (fadd exact) a v = a + sum_list v"
  by (induction v arbitrary: a) (simp_all add: fadd_def exact_def)

lemma accumulate_exact: "accumulate exact v = sum_list v"
  by (simp add: accumulate_def foldl_exact_sum)

lemma foldl_exact_squares:
  "foldl (\<lambda>variance val. fadd exact variance (fmul exact (fsub exact val m) (fsub exact val m))) a v
     = a + (\<Sum>x\<leftarrow>v. (x - m)\<^sup>2)"
  by (induction v arbitrary: a) (simp_all add: fadd_def fmul_def fsub_def exact_def power2_eq_square)

lemma sum_squares_exact: "sum_squares exact v m = (\<Sum>x\<leftarrow>v. (x - m)\<^sup>2)"
  by (simp add: sum_squares_def foldl_exact_squares)

lemma half_sum_exact: "half_sum exact a b = (a + b) / 2"
  by (simp add: half_sum_def fadd_def exact_def)

lemma sort_nth_0: "xs \<noteq> [] \<Longrightarrow> sort xs ! 0 = Min (set xs)"
proof -
  assume ne: "xs \<noteq> []"
  then have sne: "sort xs \<noteq> []" by (rule sort_not_Nil)
  then obtain y ys where s: "sort xs = y # ys" by (cases "sort xs") auto
  have "sorted (sort xs)" by simp
  then have "sorted (y # ys)" by (simp only: s)
  then have "\<forall>z\<in>set (y # ys). y \<le> z" by auto
  moreover have "set (y # ys) = set xs" by (simp only: s [symmetric] set_sort)
  ultimately have "Min (set xs) = y" by (intro Min_eqI) auto
  then show ?thesis by (simp add: s)
qed

lemma sort_nth_last: "xs \<noteq> [] \<Longrightarrow> sort xs ! (length xs - 1) = Max (set xs)"
proof -
  assume ne: "xs \<noteq> []"
  let ?s = "sort xs"
  have len: "length ?s = length xs" by simp
  have pos: "0 < length xs" using ne by simp
  have "z \<le> ?s ! (length xs - 1)" if "z \<in> set xs" for z
  proof -
    from that have "z \<in> set ?s" by simp
    then obtain i where i: "i < length ?s" "?s ! i = z" by (metis in_set_conv_nth)
    have "?s ! i \<le> ?s ! (length xs - 1)"
      by (rule sorted_nth_mono) (use i pos in simp_all)
    then show ?thesis by (simp add: i)
  qed
  moreover have "?s ! (length xs - 1) \<in> set xs"
  proof -
    have "?s ! (length xs - 1) \<in> set ?s" by (rule nth_mem) (use pos in simp)
    then show ?thesis by simp
  qed
  ultimately have "Max (set xs) = ?s ! (length xs - 1)" by (intro Max_eqI) auto
  then show ?thesis by simp
qed

lemma mono_exact: "mono exact"
  by (simp add: mono_def exact_def)

lemma compute_stats_exact:
  assumes ne: "xs \<noteq> []" and sz: "3 * length xs \<le> 2147483647" and n2: "length xs \<noteq> 2"
  shows "compute_stats exact xs = Inr (summarize xs)"
proof -
  have e0: "exact 0 = 0" and e1: "exact 1 = 1" by (simp_all add: exact_def)
  show ?thesis
    unfolding compute_stats_defined [OF mono_exact e0 e1 ne sz n2]
    using sort_nth_last [OF ne]
    by (simp add: summarize_def Let_def accumulate_exact sum_squares_exact half_sum_exact
        sort_nth_0 [OF ne] exact_def)
qed







lemma compute_stats_empty: "rnd 0 = 0 \<Longrightarrow> compute_stats rnd [] = Inl DivisionByZero"
  by (simp add: compute_stats_def compute_mean_def fdiv_def size_to_double_def and_then_def)





lemma sort_mset_eq:
  fixes xs ys :: "real list"
  assumes "mset xs = mset ys" shows "sort xs = sort ys"
proof (rule properties_for_sort)
  show "mset (sort ys) = mset xs" using assms by simp
  show "sorted (sort ys)" by simp
qed

lemma sum_list_mset_eq:
  fixes xs ys :: "real list" and f :: "real \<Rightarrow> real"
  assumes "mset xs = mset ys" shows "sum_list (map f xs) = sum_list (map f ys)"
proof -
  have "sum_mset (image_mset f (mset xs)) = sum_mset (image_mset f (mset ys))"
    using assms by simp
  then show ?thesis by (simp only: mset_map [symmetric] sum_mset_sum_list)
qed

lemma compute_stats_exact_perm:
  assumes "mset xs = mset ys"
  shows "compute_stats exact xs = compute_stats exact ys"
proof -
  have l: "length xs = length ys" using assms by (rule mset_eq_length)
  have s: "sort xs = sort ys" using assms by (rule sort_mset_eq)
  have a: "sum_list xs = sum_list ys" using sum_list_mset_eq [OF assms, of "\<lambda>x. x"] by simp
  have q: "(\<Sum>x\<leftarrow>xs. (x - m)\<^sup>2) = (\<Sum>x\<leftarrow>ys. (x - m)\<^sup>2)" for m
    by (rule sum_list_mset_eq [OF assms])
  show ?thesis
    by (simp add: compute_stats_def compute_mean_def compute_variance_def accumulate_exact
        sum_squares_exact l s a q)
qed

text \<open>What the reduction reads from the sorted vector.\<close>

lemma compute_stats_order_part:
  assumes m: "mono rnd" and r0: "rnd 0 = 0" and r1: "rnd 1 = 1" and ne: "xs \<noteq> []"
  shows "(\<exists>e. compute_stats rnd xs = Inl e \<and>
            (compute_quartiles rnd (sort xs) = Inl e
             \<or> (\<exists>q. compute_quartiles rnd (sort xs) = Inr q \<and> compute_median rnd (sort xs) = Inl e)))
       \<or> (\<exists>s Q1 Q3 med. compute_stats rnd xs = Inr s
             \<and> compute_quartiles rnd (sort xs) = Inr (Q1, Q3)
             \<and> compute_median rnd (sort xs) = Inr med
             \<and> st_min s = sort xs ! 0 \<and> st_Q1 s = Q1 \<and> st_median s = med \<and> st_Q3 s = Q3
             \<and> st_max s = sort xs ! (length xs - 1) \<and> st_count s = length xs)"
proof -
  let ?s = "sort xs"
  have sne: "?s \<noteq> []" using ne by (rule sort_not_Nil)
  have mn: "min_element ?s = Inr (?s ! 0)" by (rule min_element_sorted) (simp_all add: sne)
  have mx: "max_element ?s = Inr (?s ! (length xs - 1))"
    using max_element_sorted [of ?s] sne by simp
  have sq: "fsqrt rnd (rnd (sum_squares rnd xs m / rnd (real (length xs)))) =
            Inr (rnd (sqrt (rnd (sum_squares rnd xs m / rnd (real (length xs))))))" for m
    using variance_nonneg [OF m r0 r1 ne, of m] by (simp add: fsqrt_def)
  show ?thesis
  proof (cases "compute_quartiles rnd ?s")
    case (Inl e)
    then show ?thesis
      by (simp add: compute_stats_def compute_mean_defined [OF m r1 ne]
          compute_variance_defined [OF m r1 ne] sq and_then_def Let_def)
  next
    case q: (Inr q)
    obtain Q1 Q3 where qq: "q = (Q1, Q3)" by (cases q) auto
    show ?thesis
    proof (cases "compute_median rnd ?s")
      case (Inl e)
      then show ?thesis using q
        by (simp add: compute_stats_def compute_mean_defined [OF m r1 ne]
            compute_variance_defined [OF m r1 ne] sq and_then_def Let_def qq)
    next
      case (Inr med)
      then show ?thesis using q
        by (simp add: compute_stats_def compute_mean_defined [OF m r1 ne]
            compute_variance_defined [OF m r1 ne] sq and_then_def Let_def qq mn mx)
    qed
  qed
qed

text \<open>
  C5, as amended. The reduction is a function of its sample; for a permutation of the
  sample it gives the same result in exact arithmetic, and for every monotone rounding
  that keeps 0 and 1 it fails in the same way or gives the same min, Q1, median, Q3, max
  and count. (The mean, the variance and the standard deviation are accumulated over the
  sample as given, before the sort.)
\<close>

theorem order_statistics_permutation:
  assumes "mset xs = mset ys"
  shows
   "compute_stats exact xs = compute_stats exact ys
  \<and> compute_stats rnd xs = compute_stats rnd xs
  \<and> (mono rnd \<and> rnd 0 = 0 \<and> rnd 1 = 1 \<longrightarrow>
       (\<exists>e. compute_stats rnd xs = Inl e \<and> compute_stats rnd ys = Inl e)
     \<or> (\<exists>s t. compute_stats rnd xs = Inr s \<and> compute_stats rnd ys = Inr t
            \<and> st_min s = st_min t \<and> st_Q1 s = st_Q1 t \<and> st_median s = st_median t
            \<and> st_Q3 s = st_Q3 t \<and> st_max s = st_max t \<and> st_count s = st_count t))"
proof (intro conjI impI)
  show "compute_stats exact xs = compute_stats exact ys"
    using assms by (rule compute_stats_exact_perm)
  show "compute_stats rnd xs = compute_stats rnd xs" by (rule refl)
next
  assume r: "mono rnd \<and> rnd 0 = 0 \<and> rnd 1 = 1"
  then have m: "mono rnd" and r0: "rnd 0 = 0" and r1: "rnd 1 = 1" by simp_all
  have l: "length xs = length ys" using assms by (rule mset_eq_length)
  have s: "sort xs = sort ys" using assms by (rule sort_mset_eq)
  show "(\<exists>e. compute_stats rnd xs = Inl e \<and> compute_stats rnd ys = Inl e)
     \<or> (\<exists>s t. compute_stats rnd xs = Inr s \<and> compute_stats rnd ys = Inr t
            \<and> st_min s = st_min t \<and> st_Q1 s = st_Q1 t \<and> st_median s = st_median t
            \<and> st_Q3 s = st_Q3 t \<and> st_max s = st_max t \<and> st_count s = st_count t)"
  proof (cases "xs = []")
    case True
    then have "ys = []" using assms by simp
    with True show ?thesis using r0 compute_stats_empty [of rnd] by simp
  next
    case False
    then have ney: "ys \<noteq> []" using assms by auto
    from compute_stats_order_part [OF m r0 r1 False] compute_stats_order_part [OF m r0 r1 ney]
    show ?thesis unfolding s l by (elim disjE exE conjE) simp_all
  qed
qed


theorem order_statistics_permutation_witness:
  "compute_stats exact [40, 10, 30, 20] = compute_stats exact [10, 20, 30, 40]
   \<and> compute_stats exact [10, 20, 30, 40] = Inr (summarize [10, 20, 30, 40])"
proof -
  have p: "mset [40, 10, 30, 20 :: real] = mset [10, 20, 30, 40]"
    by (simp add: add_mset_commute)
  have "compute_stats exact [10, 20, 30, 40] = Inr (summarize [10, 20, 30, 40])"
    by (rule compute_stats_exact) simp_all
  then show ?thesis
    using order_statistics_permutation [OF p, of exact] by simp
qed

lemmas binary64_eval = binary64_def ilog2_def pow2_def round_half_even_def Let_def compute_bitlen

lemma mean_tenths:
  "compute_mean binary64
     [3602879701896397 / 36028797018963968, 3602879701896397 / 18014398509481984,
      5404319552844595 / 18014398509481984] = Inr (7205759403792795 / 36028797018963968)"
  by (simp add: compute_mean_def accumulate_def fadd_def fdiv_def size_to_double_def binary64_eval)

lemma mean_tenths_reversed:
  "compute_mean binary64
     [5404319552844595 / 18014398509481984, 3602879701896397 / 18014398509481984,
      3602879701896397 / 36028797018963968] = Inr (7205759403792793 / 36028797018963968)"
  by (simp add: compute_mean_def accumulate_def fadd_def fdiv_def size_to_double_def binary64_eval)

lemma variance_tenths:
  "compute_variance binary64
     [3602879701896397 / 36028797018963968, 3602879701896397 / 18014398509481984,
      5404319552844595 / 18014398509481984] (7205759403792795 / 36028797018963968)
   = Inr (7686143364045645 / 1152921504606846976)"
  by (simp add: compute_variance_def sum_squares_def fadd_def fsub_def fmul_def fdiv_def
      size_to_double_def binary64_eval)

lemma variance_tenths_reversed:
  "compute_variance binary64
     [5404319552844595 / 18014398509481984, 3602879701896397 / 18014398509481984,
      3602879701896397 / 36028797018963968] (7205759403792793 / 36028797018963968)
   = Inr (7686143364045645 / 1152921504606846976)"
  by (simp add: compute_variance_def sum_squares_def fadd_def fsub_def fmul_def fdiv_def
      size_to_double_def binary64_eval)

text \<open>
  C5 as stated fails in binary64: the sample 0.1, 0.2, 0.3 (as doubles) and its reversal
  are permutations of each other, and the reduction gives them different means.
\<close>

theorem mean_depends_on_order:
  "mset [3602879701896397 / 36028797018963968, 3602879701896397 / 18014398509481984,
         5404319552844595 / 18014398509481984 :: real]
   = mset [5404319552844595 / 18014398509481984, 3602879701896397 / 18014398509481984,
         3602879701896397 / 36028797018963968]
   \<and> (\<exists>s t.
        compute_stats binary64
          [3602879701896397 / 36028797018963968, 3602879701896397 / 18014398509481984,
           5404319552844595 / 18014398509481984] = Inr s
      \<and> compute_stats binary64
          [5404319552844595 / 18014398509481984, 3602879701896397 / 18014398509481984,
           3602879701896397 / 36028797018963968] = Inr t
      \<and> st_mean s = 7205759403792795 / 36028797018963968
      \<and> st_mean t = 7205759403792793 / 36028797018963968
      \<and> st_mean s \<noteq> st_mean t)"
proof -
  have srt: "sort [3602879701896397 / 36028797018963968, 3602879701896397 / 18014398509481984,
           5404319552844595 / 18014398509481984 :: real] =
       [3602879701896397 / 36028797018963968, 3602879701896397 / 18014398509481984,
           5404319552844595 / 18014398509481984]"
    by simp
  have srt': "sort [5404319552844595 / 18014398509481984, 3602879701896397 / 18014398509481984,
           3602879701896397 / 36028797018963968 :: real] =
       [3602879701896397 / 36028797018963968, 3602879701896397 / 18014398509481984,
           5404319552844595 / 18014398509481984]"
    by simp
  have q: "compute_quartiles binary64 [3602879701896397 / 36028797018963968, 3602879701896397 / 18014398509481984,
           5404319552844595 / 18014398509481984] = Inr (3602879701896397 / 36028797018963968, 5404319552844595 / 18014398509481984)"
    by (simp add: compute_quartiles_def size_to_int_def c_div_def c_rem_def INT_MAX_def INT_MIN_def
        subscript_def and_then_def)
  have md: "compute_median binary64 [3602879701896397 / 36028797018963968, 3602879701896397 / 18014398509481984,
           5404319552844595 / 18014398509481984] = Inr (3602879701896397 / 18014398509481984)"
    by (simp add: compute_median_def subscript_def and_then_def)
  have sq: "fsqrt binary64 (7686143364045645 / 1152921504606846976) =
            Inr (binary64 (sqrt (7686143364045645 / 1152921504606846976)))"
    by (simp add: fsqrt_def)
  show ?thesis
    unfolding compute_stats_def mean_tenths mean_tenths_reversed
    by (simp add: and_then_def variance_tenths variance_tenths_reversed sq srt srt' q md
        min_element_def max_element_def del: sort_key_simps)
qed


subsection \<open>The command line\<close>

lemma once_continue: "\<exists>st'. once pf cmd ccp st = Continue st'"
  by (simp add: once_def split: prod.splits)

lemma repeat_no_return: "repeat pf func st \<noteq> Return code out w"
  by (simp add: repeat_def split: sum.splits)

lemma set_repetitions_no_return: "set_repetitions st \<noteq> Return code out w"
  by (simp add: set_repetitions_def split: sum.splits)

lemma ofolder_return: "ofolder pf st = Return code out w \<Longrightarrow> code = 0"
  by (simp add: ofolder_def Let_def split: prod.splits if_splits)

lemma with_positional_return:
  assumes "with_positional k msg body st = Return code out w"
    and "\<And>as st'. body as st' = Return code out w \<Longrightarrow> code = 0"
  shows "code = 0"
  using assms
  by (auto simp: with_positional_def split: sum.splits positional.splits)

lemma dispatch_return_zero: "dispatch pf c st = Return code out w \<Longrightarrow> code = 0"
  unfolding dispatch_def
  by (auto simp: repeat_no_return set_repetitions_no_return once_def
           dest: ofolder_return elim!: with_positional_return
           split: if_splits prod.splits)


lemma main_run_complete:
  assumes "main_loop pf gl st = Some y"
  shows "\<exists>cs e. main_run pf gl st cs e y"
proof (rule main_loop.raw_induct [where P = "\<lambda>pf gl st y. \<exists>cs e. main_run pf gl st cs e y", OF _ assms])
  fix ml and pf :: "'a platform" and gl :: "'b getopt_fun" and st :: "('b, 'a) main_state" and y
  assume IH: "\<And>pf gl st y. ml pf gl st = Some y \<Longrightarrow> \<exists>cs e. main_run pf gl st cs e y"
    and body: "(case gl (ms_getopt st) (verbose_flag st) of
      (c, gv, vf) \<Rightarrow>
        if c = - 1
        then Some (Exit 0 (ms_out st @ [Text (status_text (cmd_ret st))]) (ms_world st))
        else case dispatch pf c (st\<lparr>ms_getopt := gv, verbose_flag := vf\<rparr>) of
             Continue st' \<Rightarrow> ml pf gl st'
             | Return code out w \<Rightarrow> Some (Exit code out w)
             | Undefined_behaviour e \<Rightarrow> Some (Undefined e)) = Some y"
  obtain c gv vf where g: "gl (ms_getopt st) (verbose_flag st) = (c, gv, vf)"
    by (cases "gl (ms_getopt st) (verbose_flag st)") auto
  show "\<exists>cs e. main_run pf gl st cs e y"
  proof (cases "c = - 1")
    case True
    with body g have "y = Exit 0 (ms_out st @ [Text (status_text (cmd_ret st))]) (ms_world st)"
      by simp
    then show ?thesis using run_end [where getopt_long = gl and pf = pf and st = st] g True by blast
  next
    case False
    show ?thesis
    proof (cases "dispatch pf c (st\<lparr>ms_getopt := gv, verbose_flag := vf\<rparr>)")
      case (Continue st')
      with body g False have "ml pf gl st' = Some y" by simp
      then obtain cs e where "main_run pf gl st' cs e y" using IH by blast
      then show ?thesis using run_step [where getopt_long = gl and pf = pf and st = st] g False Continue by blast
    next
      case (Return code out w)
      with body g False have "y = Exit code out w" by simp
      then show ?thesis using run_return [where getopt_long = gl and pf = pf and st = st] g False Return by blast
    next
      case (Undefined_behaviour f)
      with body g False have "y = Undefined f" by simp
      then show ?thesis using run_undefined [where getopt_long = gl and pf = pf and st = st] g False Undefined_behaviour by blast
    qed
  qed
qed

lemma main_run_deterministic:
  "main_run pf gl st cs e y \<Longrightarrow> main_run pf gl st cs' e' y' \<Longrightarrow> cs' = cs \<and> e' = e \<and> y' = y"
proof (induction arbitrary: cs' e' y' rule: main_run.induct)
  case (run_end st gv vf)
  from run_end(2) show ?case using run_end(1) by cases auto
next
  case (run_step st c gv vf st' cs e y)
  from run_step(6) show ?case using run_step(1-3) run_step(5) by cases auto
next
  case (run_return st c gv vf code out w)
  from run_return(4) show ?case using run_return(1-3) by cases auto
next
  case (run_undefined st c gv vf f)
  from run_undefined(4) show ?case using run_undefined(1-3) by cases auto
qed


text \<open>Rules to run the model on a concrete command line.\<close>

lemmas getopt_eval = getopt_long_model_def getopt_long_option_def getopt_short_option_def
  find_long_option_def long_option_result_def long_options_def Let_def

lemmas loop_eval = repetition_loop.simps initial_cycle_def perform_repetitions_and_analysis_def

lemmas main_eval = main_def initial_state_def main_loop.simps dispatch_def with_positional_def
  take_positional_def argv_at_def and_then_def once_def repeat_def

text \<open>
  C7. The arity check of \<open>sign_pek_csr\<close> on one or three trailing arguments: the process
  returns before the operation runs (the world is unchanged), and the message it prints
  names \<open>pek_cert_import\<close>.
\<close>

theorem sign_pek_csr_diagnostic:
  "main pf getopt_long_model 0 [''sevtool'', ''--sign_pek_csr'', ''a''] w =
     Some (Exit 0 [Text (''Error: Expecting exactly 2 args for pek_cert_import'' @ nl)] w)
   \<and> main pf getopt_long_model 0 [''sevtool'', ''--sign_pek_csr'', ''a'', ''b'', ''c''] w =
     Some (Exit 0 [Text (''Error: Expecting exactly 2 args for pek_cert_import'' @ nl)] w)"
  by (simp add: main_eval getopt_eval)












text \<open>
  With the model of \<open>getopt_long\<close> the loop of main ends on every command line: every
  call that does not return \<open>-1\<close> moves \<open>optind\<close> forward or moves on in a group of short
  options, and the \<open>switch\<close> sets \<open>optind\<close> to \<open>argc\<close> or leaves it.
\<close>

lemma long_option_result_vars: "fst (snd (long_option_result gv vf e)) = gv"
  by (simp add: long_option_result_def)

lemma getopt_long_option_progress:
  assumes "getopt_long_option gv vf body = (c, gv', vf')" and "optind gv < int (length (argv gv))"
  shows "argv gv' = argv gv \<and> hidden gv' = hidden gv \<and> optind gv < optind gv'
         \<and> optind gv' \<le> int (length (argv gv))"
  using assms
  by (auto simp: getopt_long_option_def long_option_result_def Let_def
      split: option.splits has_arg.splits if_splits)

lemma getopt_short_option_progress:
  assumes "getopt_short_option gv vf tok p = (c, gv', vf')" and "optind gv < int (length (argv gv))"
  shows "argv gv' = argv gv
         \<and> ((optind gv < optind gv' \<and> optind gv' \<le> int (length (argv gv)))
            \<or> (optind gv' = optind gv \<and> hidden gv' = p + 1 \<and> p + 1 \<noteq> length tok))"
  using assms
  by (auto simp: getopt_short_option_def Let_def split: if_splits)

lemma getopt_long_model_progress:
  assumes g: "getopt_long_model gv vf = (c, gv', vf')" and c: "c \<noteq> - 1"
  shows "argv gv' = argv gv \<and> optind gv < int (length (argv gv))
         \<and> ((optind gv < optind gv' \<and> optind gv' \<le> int (length (argv gv)))
            \<or> (optind gv' = optind gv \<and> snd (remaining gv') < snd (remaining gv)))"
proof -
  let ?i = "optind gv"
  let ?tok = "argv gv ! nat ?i"
  have r: "1 \<le> ?i" "?i < int (length (argv gv))"
    using g c by (auto simp: getopt_long_model_def Let_def split: if_splits)
  show ?thesis
  proof (cases "0 < hidden gv \<and> hidden gv < length ?tok")
    case True
    then have "getopt_short_option gv vf ?tok (hidden gv) = (c, gv', vf')"
      using g r by (simp add: getopt_long_model_def Let_def)
    from getopt_short_option_progress [OF this r(2)] True r show ?thesis
      by (auto simp: remaining_def Let_def)
  next
    case False
    show ?thesis
    proof (cases "take 2 ?tok = ''--''")
      case True
      then have "getopt_long_option gv vf (drop 2 ?tok) = (c, gv', vf')"
        using g c r False by (simp add: getopt_long_model_def Let_def split: if_splits)
      from getopt_long_option_progress [OF this r(2)] r show ?thesis by simp
    next
      case d: False
      then have s: "getopt_short_option gv vf ?tok 1 = (c, gv', vf')" and l: "1 < length ?tok"
        using g c r False by (auto simp: getopt_long_model_def Let_def split: if_splits)
      from getopt_short_option_progress [OF s r(2)] False l r show ?thesis
        by (auto simp: remaining_def Let_def)
    qed
  qed
qed

lemma once_vars: "once pf cmd ccp st = Continue st' \<Longrightarrow> ms_getopt st' = ms_getopt st"
  by (auto simp: once_def split: prod.splits)

lemma repeat_vars: "repeat pf func st = Continue st' \<Longrightarrow> ms_getopt st' = ms_getopt st"
  by (auto simp: repeat_def split: sum.splits)

lemma set_repetitions_vars: "set_repetitions st = Continue st' \<Longrightarrow> ms_getopt st' = ms_getopt st"
  by (auto simp: set_repetitions_def Let_def split: sum.splits if_splits)

lemma ofolder_vars: "ofolder pf st = Continue st' \<Longrightarrow> ms_getopt st' = ms_getopt st"
  by (auto simp: ofolder_def Let_def split: prod.splits if_splits)

lemma with_positional_vars:
  assumes "with_positional k msg body st = Continue st'"
    and "\<And>as st1. body as st1 = Continue st' \<Longrightarrow> ms_getopt st' = ms_getopt st1"
  shows "ms_getopt st' = (ms_getopt st)\<lparr>optind := int (length (argv (ms_getopt st)))\<rparr>"
  using assms
  by (auto simp: with_positional_def take_positional_def Let_def and_then_def
      split: sum.splits positional.splits if_splits)

lemma dispatch_vars:
  assumes "dispatch pf c st = Continue st'"
  shows "ms_getopt st' = ms_getopt st
         \<or> ms_getopt st' = (ms_getopt st)\<lparr>optind := int (length (argv (ms_getopt st)))\<rparr>"
  using assms unfolding dispatch_def
  by (auto dest: once_vars repeat_vars set_repetitions_vars ofolder_vars
      dest!: with_positional_vars split: if_splits prod.splits)

lemma main_loop_terminates: "\<exists>y. main_loop pf getopt_long_model st = Some y"
proof -
  have "wf (inv_image (less_than <*lex*> less_than)
          (\<lambda>st :: (nat, 'a) main_state. remaining (ms_getopt st)))"
    by (intro wf_inv_image wf_lex_prod wf_less_than)
  then show ?thesis
  proof (induction st rule: wf_induct_rule)
    case (less st)
    obtain c gv vf where g: "getopt_long_model (ms_getopt st) (verbose_flag st) = (c, gv, vf)"
      by (cases "getopt_long_model (ms_getopt st) (verbose_flag st)") auto
    show ?case
    proof (cases "c = - 1")
      case True
      then show ?thesis by (subst main_loop.simps) (simp add: g)
    next
      case False
      note p = getopt_long_model_progress [OF g False]
      show ?thesis
      proof (cases "dispatch pf c (st\<lparr>ms_getopt := gv, verbose_flag := vf\<rparr>)")
        case (Continue st')
        from dispatch_vars [OF Continue]
        have v: "ms_getopt st' = gv \<or> ms_getopt st' = gv\<lparr>optind := int (length (argv gv))\<rparr>"
          by simp
        have "fst (remaining (ms_getopt st')) < fst (remaining (ms_getopt st))
              \<or> (fst (remaining (ms_getopt st')) = fst (remaining (ms_getopt st))
                 \<and> snd (remaining (ms_getopt st')) < snd (remaining (ms_getopt st)))"
          using v p by (auto simp: remaining_def)
        then have "(st', st) \<in> inv_image (less_than <*lex*> less_than)
            (\<lambda>st :: (nat, 'a) main_state. remaining (ms_getopt st))"
          by (cases "remaining (ms_getopt st')"; cases "remaining (ms_getopt st)") auto
        from less [OF this] obtain y where "main_loop pf getopt_long_model st' = Some y" by blast
        then show ?thesis using g False Continue by (subst main_loop.simps) simp
      next
        case (Return code out w)
        then show ?thesis using g False by (subst main_loop.simps) simp
      next
        case (Undefined_behaviour f)
        then show ?thesis using g False by (subst main_loop.simps) simp
      qed
    qed
  qed
qed



lemma run_exit_zero: "main_run pf gl st cs e y \<Longrightarrow> y = Exit code out w \<Longrightarrow> code = 0"
  by (induction rule: main_run.induct) (auto dest: dispatch_return_zero)





lemma counting_platform_fields:
  "pf_rounding counting_platform = exact"
  "run_measured counting_platform cmd folder vf measurements w = (0, measurements @ [real (Suc w)], Suc w)"
  "run_command counting_platform cmd folder vf ccp w = (0, Suc w)"
  "test_all counting_platform folder vf w = (1, w)"
  "execute_system_command counting_platform c w = (True, ''exist'', w)"
  by (simp_all add: counting_platform_def)



lemma printf_02x_length: "2 \<le> length (printf_02x v)"
  by (simp add: printf_02x_def Let_def)






text \<open>
  C9. Every way out of main gives the exit code 0: the \<open>return false\<close> of an arity error, of
  an unrecognised option and of a failed output-folder check, and the \<open>return 0\<close> at the
  end, whatever the status of the command was. This holds for every behaviour of
  \<open>getopt_long\<close> and of the platform. With the model of \<open>getopt_long\<close> main ends on
  every command line, with the exit code 0 unless the behaviour is undefined.
\<close>

theorem exit_code_zero:
  "(main pf gl g args w = Some (Exit code out w') \<longrightarrow> code = 0)
  \<and> (main_run pf gl st cs e (Exit code out w') \<longrightarrow> code = 0)
  \<and> (dispatch pf c st = Return code out w' \<longrightarrow> code = 0)
  \<and> ((\<exists>out' w''. main pf getopt_long_model k args' w = Some (Exit 0 out' w''))
     \<or> (\<exists>f. main pf getopt_long_model k args' w = Some (Undefined f)))"
proof (intro conjI impI)
  assume "main pf gl g args w = Some (Exit code out w')"
  then obtain cs e where "main_run pf gl (initial_state g args w) cs e (Exit code out w')"
    unfolding main_def using main_run_complete by blast
  then show "code = 0" by (rule run_exit_zero) simp
next
  assume "main_run pf gl st cs e (Exit code out w')"
  then show "code = 0" by (rule run_exit_zero) simp
next
  assume "dispatch pf c st = Return code out w'"
  then show "code = 0" by (rule dispatch_return_zero)
next
  obtain y where y: "main pf getopt_long_model k args' w = Some y"
    unfolding main_def using main_loop_terminates by blast
  then obtain cs e where r: "main_run pf getopt_long_model (initial_state k args' w) cs e y"
    unfolding main_def using main_run_complete by blast
  show "(\<exists>out' w''. main pf getopt_long_model k args' w = Some (Exit 0 out' w''))
     \<or> (\<exists>f. main pf getopt_long_model k args' w = Some (Undefined f))"
  proof (cases y)
    case (Exit code' out' w'')
    with r have "code' = 0" by (intro run_exit_zero [OF r]) simp
    with y Exit show ?thesis by simp
  next
    case (Undefined f)
    with y show ?thesis by simp
  qed
qed

lemma char_of_zero: "char_of (0 :: int) = CHR 0x00"
  by (simp add: char_of_def)

theorem exit_code_zero_witness:
  "main counting_platform getopt_long_model 0 [''sevtool'', ''--pek_cert_import'', ''a''] 0 =
     Some (Exit 0 [Text (''Error: Expecting exactly 2 args for pek_cert_import'' @ nl)] 0)
   \<and> main counting_platform getopt_long_model 0 [''sevtool'', ''--bogus''] 0 =
     Some (Exit 0 [Stderr (''Unrecognised option: -'' @ [CHR 0x00] @ nl)] 0)
   \<and> main (counting_platform\<lparr>run_command := \<lambda>cmd folder vf ccp w. (5, Suc w)\<rparr>)
        getopt_long_model 0 [''sevtool'', ''--get_ask_ark''] 0 =
     Some (Exit 0 [Text (nl @ ''Command Unsuccessful: 0x05'' @ nl)] 1)"
proof -
  have e1: "main counting_platform getopt_long_model 0 [''sevtool'', ''--pek_cert_import'', ''a''] 0 =
     Some (Exit (of_bool False) [Text (''Error: Expecting exactly 2 args for pek_cert_import'' @ nl)] 0)"
    by (simp add: main_eval getopt_eval)
  have e2: "main counting_platform getopt_long_model 0 [''sevtool'', ''--bogus''] 0 =
     Some (Exit (of_bool False) [Stderr (''Unrecognised option: -'' @ [CHR 0x00] @ nl)] 0)"
    by (simp add: main_eval getopt_eval char_of_zero)
  have e3: "main (counting_platform\<lparr>run_command := \<lambda>cmd folder vf ccp w. (5, Suc w)\<rparr>)
        getopt_long_model 0 [''sevtool'', ''--get_ask_ark''] 0 =
     Some (Exit 0 [Text (nl @ ''Command Unsuccessful: 0x05'' @ nl)] 1)"
    by (simp add: main_eval getopt_eval status_text_def printf_02x_def hex_digits.simps hex_digit_def)
  have z: "of_bool False = (0 :: int)"
    using exit_code_zero [THEN conjunct1, rule_format, OF e1] .
  show ?thesis using e1 e2 e3 unfolding z by (intro conjI)
qed








lemma variance_empty: "rnd 0 = 0 \<Longrightarrow> compute_variance rnd [] m = Inl DivisionByZero"
  by (simp add: compute_variance_def fdiv_def size_to_double_def)

lemma mean_empty: "rnd 0 = 0 \<Longrightarrow> compute_mean rnd [] = Inl DivisionByZero"
  by (simp add: compute_mean_def fdiv_def size_to_double_def)

lemma argv_from_two:
  "argv_from v i 2 =
     and_then (argv_at v i) (\<lambda>a. and_then (argv_at v (i + 1)) (\<lambda>b. Inr [a, b]))"
  by (simp add: numeral_2_eq_2 and_then_def split: sum.splits)

lemma pek_cert_import_empty:
  assumes "pf_rounding pf 0 = 0"
  shows "main pf getopt_long_model 0 [p, ''--pek_cert_import'', f1, f2] w =
     Some (Undefined DivisionByZero)"
proof -
  obtain ret w' where r: "run_command pf (Pek_cert_import f1 f2) ''./'' 0 True w = (ret, w')"
    by (cases "run_command pf (Pek_cert_import f1 f2) ''./'' 0 True w")
  have s: "compute_stats (pf_rounding pf) [] = Inl DivisionByZero"
    using assms by (rule compute_stats_empty)
  show ?thesis
    by (simp add: main_eval getopt_eval argv_from_two pek_cert_import_lambda_def
        perform_repetitions_and_analysis_def repetition_loop.simps initial_cycle_def r s
        and_then_def Let_def)
qed

text \<open>
  C3. The reduction is applied to the vector the loop has left, whatever the status of
  the cycle and also when the vector is empty. On the empty vector the mean and the
  variance divide by the size 0, and the quartiles and the median read outside the
  vector; on a vector of two elements the first quartile reads index 2 / 4 - 1 = -1.
  Both failures are reached from the command line: \<open>pek_cert_import\<close> never adds a
  measurement, so its cycle ends with the empty vector, and two repetitions of a measured
  operation that adds one measurement a run end with two elements.
\<close>

theorem empty_sample_reduction:
  "(0 \<le> n \<longrightarrow>
      perform_repetitions_and_analysis rnd func n w =
        and_then (compute_stats rnd (cy_measurements (repetition_loop func n 0 (initial_cycle w))))
          (\<lambda>s. Inr ((repetition_loop func n 0 (initial_cycle w))
             \<lparr>cy_measurements := sort (cy_measurements (repetition_loop func n 0 (initial_cycle w))),
              cy_out := cy_out (repetition_loop func n 0 (initial_cycle w)) @ report s\<rparr>)))
  \<and> (rnd 0 = 0 \<longrightarrow>
       compute_mean rnd [] = Inl DivisionByZero
       \<and> compute_variance rnd [] m = Inl DivisionByZero
       \<and> compute_stats rnd [] = Inl DivisionByZero
       \<and> perform_repetitions_and_analysis rnd func 0 w = Inl DivisionByZero)
  \<and> compute_quartiles rnd [] = Inl OutOfBounds
  \<and> compute_median rnd [] = Inl OutOfBounds
  \<and> c_div (size_to_int (length [a, b])) 4 - 1 = - 1
  \<and> subscript [a, b] (c_div (size_to_int (length [a, b])) 4 - 1) = Inl OutOfBounds
  \<and> compute_quartiles rnd [a, b] = Inl OutOfBounds
  \<and> (mono rnd \<and> rnd 0 = 0 \<and> rnd 1 = 1 \<longrightarrow> compute_stats rnd [a, b] = Inl OutOfBounds)
  \<and> (pf_rounding pf 0 = 0 \<longrightarrow>
       main pf getopt_long_model 0 [p, ''--pek_cert_import'', f1, f2] w' =
         Some (Undefined DivisionByZero))"
proof (intro conjI impI)
  assume "0 \<le> n"
  then show "perform_repetitions_and_analysis rnd func n w =
        and_then (compute_stats rnd (cy_measurements (repetition_loop func n 0 (initial_cycle w))))
          (\<lambda>s. Inr ((repetition_loop func n 0 (initial_cycle w))
             \<lparr>cy_measurements := sort (cy_measurements (repetition_loop func n 0 (initial_cycle w))),
              cy_out := cy_out (repetition_loop func n 0 (initial_cycle w)) @ report s\<rparr>))"
    by (simp add: perform_repetitions_and_analysis_def Let_def)
next
  assume r: "rnd 0 = 0"
  show "compute_mean rnd [] = Inl DivisionByZero" using r by (rule mean_empty)
  show "compute_variance rnd [] m = Inl DivisionByZero" using r by (rule variance_empty)
  show e: "compute_stats rnd [] = Inl DivisionByZero" using r by (rule compute_stats_empty)
  show "perform_repetitions_and_analysis rnd func 0 w = Inl DivisionByZero"
    by (simp add: perform_repetitions_and_analysis_def repetition_loop.simps initial_cycle_def e
        and_then_def)
next
  show "compute_quartiles rnd [] = Inl OutOfBounds" by (rule quartiles_empty)
  show "compute_median rnd [] = Inl OutOfBounds" by (rule median_empty)
  have s: "size_to_int (length [a, b]) = 2"
    using size_to_int_small [of "length [a, b]"] by simp
  show i: "c_div (size_to_int (length [a, b])) 4 - 1 = - 1"
    unfolding s by (simp add: c_div_def)
  show "subscript [a, b] (c_div (size_to_int (length [a, b])) 4 - 1) = Inl OutOfBounds"
    unfolding i by (simp add: subscript_def)
  show "compute_quartiles rnd [a, b] = Inl OutOfBounds" by (rule quartiles_two)
next
  assume "mono rnd \<and> rnd 0 = 0 \<and> rnd 1 = 1"
  then show "compute_stats rnd [a, b] = Inl OutOfBounds"
    using compute_stats_two [of rnd "[a, b]"] by simp
next
  assume "pf_rounding pf 0 = 0"
  then show "main pf getopt_long_model 0 [p, ''--pek_cert_import'', f1, f2] w' =
         Some (Undefined DivisionByZero)"
    by (rule pek_cert_import_empty)
qed

theorem empty_sample_reduction_witness:
  "perform_repetitions_and_analysis exact failing_third 5 (0 :: nat) =
     and_then (compute_stats exact (cy_measurements (repetition_loop failing_third 5 0 (initial_cycle 0))))
       (\<lambda>s. Inr ((repetition_loop failing_third 5 0 (initial_cycle 0))
          \<lparr>cy_measurements := sort (cy_measurements (repetition_loop failing_third 5 0 (initial_cycle 0))),
           cy_out := cy_out (repetition_loop failing_third 5 0 (initial_cycle 0)) @ report s\<rparr>))
   \<and> compute_stats exact [] = Inl DivisionByZero
   \<and> compute_stats exact [1, 2] = Inl OutOfBounds
   \<and> main counting_platform getopt_long_model 0 [''sevtool'', ''--pek_cert_import'', ''a'', ''b''] 0 =
       Some (Undefined DivisionByZero)
   \<and> main counting_platform getopt_long_model 0 [''sevtool'', ''--repetitions=2'', ''--pek_gen''] 0 =
       Some (Undefined OutOfBounds)"
proof -
  note f = empty_sample_reduction [of 5 exact failing_third "0 :: nat" 0 1 2 counting_platform
      "''sevtool''" "''a''" "''b''" 0]
  have e: "exact 0 = 0" "exact 1 = 1" by (simp_all add: exact_def)
  have c1: "perform_repetitions_and_analysis exact failing_third 5 (0 :: nat) =
     and_then (compute_stats exact (cy_measurements (repetition_loop failing_third 5 0 (initial_cycle 0))))
       (\<lambda>s. Inr ((repetition_loop failing_third 5 0 (initial_cycle 0))
          \<lparr>cy_measurements := sort (cy_measurements (repetition_loop failing_third 5 0 (initial_cycle 0))),
           cy_out := cy_out (repetition_loop failing_third 5 0 (initial_cycle 0)) @ report s\<rparr>))"
    using f [THEN conjunct1] by simp
  have c2: "compute_stats exact [] = Inl DivisionByZero"
    using f [THEN conjunct2, THEN conjunct1] e by simp
  have c3: "compute_stats exact [1, 2] = Inl OutOfBounds"
    using f [THEN conjunct2, THEN conjunct2, THEN conjunct2, THEN conjunct2, THEN conjunct2,
        THEN conjunct2, THEN conjunct2, THEN conjunct1] e mono_exact by simp
  have c4: "main counting_platform getopt_long_model 0 [''sevtool'', ''--pek_cert_import'', ''a'', ''b''] 0 =
       Some (Undefined DivisionByZero)"
    using f [THEN conjunct2, THEN conjunct2, THEN conjunct2, THEN conjunct2, THEN conjunct2,
        THEN conjunct2, THEN conjunct2, THEN conjunct2] e
    by (simp add: counting_platform_fields)
  have l2: "repetition_loop (run_measured counting_platform Pek_gen ''./'' 0) 2 0 (initial_cycle 0) =
      \<lparr>cy_measurements = [1, 2], cy_cmd_ret = 0, cy_out = [], cy_world = 2\<rparr>"
    by (simp add: repetition_loop.simps initial_cycle_def counting_platform_fields)
  have a: "atoi ''2'' = Inr 2"
    by (simp add: atoi_def isspace_def isdigit_def INT_MIN_def INT_MAX_def)
  have p2: "perform_repetitions_and_analysis (pf_rounding counting_platform)
        (run_measured counting_platform Pek_gen ''./'' 0) 2 0 = Inl OutOfBounds"
    by (simp add: perform_repetitions_and_analysis_def l2 c3 and_then_def counting_platform_fields)
  have c5: "main counting_platform getopt_long_model 0 [''sevtool'', ''--repetitions=2'', ''--pek_gen''] 0 =
       Some (Undefined OutOfBounds)"
    by (simp add: main_def initial_state_def main_loop.simps dispatch_def repeat_def
        measured_lambda_def getopt_eval set_repetitions_def a p2)
  show ?thesis using c1 c2 c3 c4 c5 by (intro conjI)
qed



end
